theory Spec2Isabelle
  imports Complex_Main "HOL-Library.AList"
begin

section \<open>The redaction dashboard client (frontend/app.js)\<close>

text \<open>
  A shallow embedding of \<^verbatim>\<open>src/invoice_redaction/frontend/app.js\<close>.

  Conventions of the model:
  \<^item> A JavaScript string is a \<^typ>\<open>string\<close>. Text outside ASCII (the ellipsis and the middle
    dot of the user-visible messages) is written as its UTF-8 bytes. The program splits only
    at \<open>/\<close> and \<open>.\<close> and pads only \<open>String(page)\<close>; these are single bytes that never occur
    inside a multi-byte sequence, so the operations agree with the ones on UTF-16 code units.
  \<^item> A value that the program handles is a \<open>jsvalue\<close>: \<open>undefined\<close> or a value that
    \<open>JSON.parse\<close> delivers. Nothing of the shape of a response body is assumed.
  \<^item> A thrown exception is a value \<open>Error message\<close>. A function that may throw returns
    \<open>js_error + 'a\<close>; a function that writes to the page and may throw returns the page it
    leaves behind together with the exception that ended it, if any. A \<open>catch\<close> block runs
    on that page. The messages of the engine's own errors are those of V8.
  \<^item> The DOM regions are lists of child nodes, threaded through the handlers as a record,
    together with the status line, the file selection and a log of the requests issued.
  \<^item> \<open>fetch\<close> is an input of the handlers: the response the network gives to the request.
  \<^item> One handler runs at a time, from its event to its last write.
\<close>

subsection \<open>Built-in string and array operations\<close>

datatype js_error = Error (message: string)

definition and_then :: "js_error + 'a \<Rightarrow> ('a \<Rightarrow> js_error + 'b) \<Rightarrow> js_error + 'b" where
  "and_then r f = (case r of Inl e \<Rightarrow> Inl e | Inr x \<Rightarrow> f x)"

text \<open>\<open>s.split(c)\<close> for a one-character separator: never the empty array.\<close>

fun String_split :: "char \<Rightarrow> string \<Rightarrow> string list" where
  "String_split c [] = [[]]"
| "String_split c (x # xs) =
     (if x = c then [] # String_split c xs
      else (case String_split c xs of
              [] \<Rightarrow> [[x]]
            | w # ws \<Rightarrow> (x # w) # ws))"

text \<open>\<open>a.pop()\<close> read for its value: the last element, \<open>undefined\<close> (None) on the empty array.\<close>

definition Array_pop :: "'a list \<Rightarrow> 'a option" where
  "Array_pop xs = (if xs = [] then None else Some (last xs))"

text \<open>\<open>a.slice(start, end)\<close>: negative arguments count from the end, both are clamped.\<close>

definition Array_slice :: "int \<Rightarrow> int \<Rightarrow> 'a list \<Rightarrow> 'a list" where
  "Array_slice start end xs =
     (let len = int (length xs);
          k = (if start < 0 then max (len + start) 0 else min start len);
          fin = (if end < 0 then max (len + end) 0 else min end len)
      in take (nat (fin - k)) (drop (nat k) xs))"

text \<open>\<open>a.join(sep)\<close> on an array of strings.\<close>

fun Array_join :: "string \<Rightarrow> string list \<Rightarrow> string" where
  "Array_join sep [] = []"
| "Array_join sep [x] = x"
| "Array_join sep (x # y # ys) = x @ sep @ Array_join sep (y # ys)"

text \<open>\<open>s.padStart(targetLength, padString)\<close>.\<close>

definition String_padStart :: "nat \<Rightarrow> string \<Rightarrow> string \<Rightarrow> string" where
  "String_padStart targetLength padString s =
     (if targetLength \<le> length s \<or> padString = [] then s
      else (let fillLen = targetLength - length s
            in take fillLen (concat (replicate fillLen padString)) @ s))"

text \<open>
  \<open>s.length\<close>, in UTF-16 code units, of a string held as UTF-8 bytes: one unit for every
  byte that starts a character, one more for a character of four bytes.
\<close>

definition String_length :: "string \<Rightarrow> nat" where
  "String_length s =
     length (filter (\<lambda>c. (of_char c :: nat) div 64 \<noteq> 2) s)
     + length (filter (\<lambda>c. (240 :: nat) \<le> of_char c) s)"

text \<open>
  \<open>a.map(f)\<close> where \<open>f\<close> may throw: the results of the calls up to the first exception,
  or that exception.
\<close>

fun all_results :: "(js_error + 'a) list \<Rightarrow> js_error + 'a list" where
  "all_results [] = Inr []"
| "all_results (r # rs) =
     (case r of
        Inl e \<Rightarrow> Inl e
      | Inr y \<Rightarrow> (case all_results rs of Inl e \<Rightarrow> Inl e | Inr ys \<Rightarrow> Inr (y # ys)))"

definition Array_map :: "('a \<Rightarrow> js_error + 'b) \<Rightarrow> 'a list \<Rightarrow> js_error + 'b list" where
  "Array_map f xs = all_results (map f xs)"

text \<open>
  \<open>a.forEach(f)\<close> where \<open>f\<close> writes to the page and may throw: the exception ends the
  traversal and leaves the page as written so far.
\<close>

fun Array_forEach ::
  "('a \<Rightarrow> 's \<Rightarrow> 's \<times> js_error option) \<Rightarrow> 'a list \<Rightarrow> 's \<Rightarrow> 's \<times> js_error option" where
  "Array_forEach f [] s = (s, None)"
| "Array_forEach f (x # xs) s =
     (case f x s of
        (s', None) \<Rightarrow> Array_forEach f xs s'
      | (s', Some e) \<Rightarrow> (s', Some e))"

text \<open>\<open>a.reduce(f, init)\<close> where \<open>f\<close> may throw.\<close>

fun Array_reduce :: "('b \<Rightarrow> 'a \<Rightarrow> js_error + 'b) \<Rightarrow> 'b \<Rightarrow> 'a list \<Rightarrow> js_error + 'b" where
  "Array_reduce f acc [] = Inr acc"
| "Array_reduce f acc (x # xs) =
     (case f acc x of Inl e \<Rightarrow> Inl e | Inr acc' \<Rightarrow> Array_reduce f acc' xs)"

subsection \<open>Numbers\<close>

text \<open>The decimal numeral of a natural number, most significant digit first.\<close>

definition digit_char :: "nat \<Rightarrow> char" where
  "digit_char d = ''0123456789'' ! (d mod 10)"

fun decimal :: "nat \<Rightarrow> string" where
  "decimal n = (if n < 10 then [digit_char n] else decimal (n div 10) @ [digit_char (n mod 10)])"

declare decimal.simps [simp del]

text \<open>
  A Number is a double. The double nearest to a natural number: the number is cut to a
  significand of 53 bits, rounding to nearest and to the even significand on a tie.
\<close>

function shift53 :: "nat \<Rightarrow> nat" where
  "shift53 m = (if m < 2 ^ 53 then 0 else Suc (shift53 (m div 2)))"
  by pat_completeness auto
termination
  by (relation "measure (\<lambda>m. m)") auto

declare shift53.simps [simp del]

definition to_double :: "nat \<Rightarrow> nat" where
  "to_double m =
     (let e = shift53 m; q = m div 2 ^ e; r = m mod 2 ^ e
      in if 2 ^ e < 2 * r \<or> (2 * r = 2 ^ e \<and> odd q) then (q + 1) * 2 ^ e else q * 2 ^ e)"

text \<open>
  \<open>Number::toString\<close> of the standard, for a double \<open>x\<close> that is a natural number: the
  digits are those of the decimal \<open>s * 10^j\<close> with the fewest significant digits that reads
  back as \<open>x\<close>, the nearest to \<open>x\<close> if there are two (the even \<open>s\<close> on a tie).
  \<open>shortest_decimal x j\<close> tries the exponents from \<open>j\<close> down; at each, only the multiples
  of \<open>10^j\<close> just below and just above \<open>x\<close> can read back as \<open>x\<close>.
\<close>

fun shortest_decimal :: "nat \<Rightarrow> nat \<Rightarrow> nat" where
  "shortest_decimal x 0 = x"
| "shortest_decimal x (Suc j) =
     (let lo = x div 10 ^ Suc j * 10 ^ Suc j;
          hi = lo + 10 ^ Suc j;
          oklo = (to_double lo = x);
          okhi = (to_double hi = x)
      in if oklo \<and> okhi
         then (if x - lo < hi - x then lo
               else if hi - x < x - lo then hi
               else if even (lo div 10 ^ Suc j) then lo else hi)
         else if oklo then lo
         else if okhi then hi
         else shortest_decimal x j)"

text \<open>
  The digits are printed in full up to 21 digits, and from 22 digits on as the significant
  digits with an exponent.
\<close>

definition print_double :: "nat \<Rightarrow> string" where
  "print_double x =
     (let ds = decimal (shortest_decimal x (length (decimal x) - 1));
          n = length ds;
          s = rev (dropWhile (\<lambda>c. c = CHR ''0'') (rev ds))
      in if n \<le> 21 then ds
         else if length s = 1 then s @ ''e+'' @ decimal (n - 1)
         else [hd s] @ ''.'' @ tl s @ ''e+'' @ decimal (n - 1))"

text \<open>
  \<open>String(n)\<close> and \<open>`${n}`\<close> for the Number that an integer numeral \<open>n\<close> of a body is read
  as: the nearest double, \<open>Infinity\<close> where that is beyond the largest double.
\<close>

definition Number_toString :: "int \<Rightarrow> string" where
  "Number_toString n =
     (let x = to_double (nat \<bar>n\<bar>)
      in (if n < 0 then ''-'' else [])
         @ (if 2 ^ 1024 \<le> x then ''Infinity'' else print_double x))"

definition MAX_SAFE_INTEGER :: int where
  "MAX_SAFE_INTEGER = 2 ^ 53 - 1"

definition Number_isSafeInteger :: "int \<Rightarrow> bool" where
  "Number_isSafeInteger n \<longleftrightarrow> - MAX_SAFE_INTEGER \<le> n \<and> n \<le> MAX_SAFE_INTEGER"

text \<open>
  A Number of a body: an integer numeral, read as the nearest double; or a Number that is
  not an integer, given by its exact value and by the decimal that \<open>String\<close> prints for it.
\<close>

datatype number = Integer int | Fraction rat string

definition number_print :: "number \<Rightarrow> string" where
  "number_print n = (case n of Integer i \<Rightarrow> Number_toString i | Fraction x s \<Rightarrow> s)"

definition number_is_zero :: "number \<Rightarrow> bool" where
  "number_is_zero n = (case n of Integer i \<Rightarrow> i = 0 | Fraction x s \<Rightarrow> x = 0)"

text \<open>
  \<open>x.toFixed(f)\<close> for a magnitude below \<open>10^21\<close>: the integer \<open>n\<close> with \<open>n / 10^f\<close>
  nearest to \<open>x\<close> (the larger one on a tie), printed with the point before its last \<open>f\<close>
  digits. From \<open>10^21\<close> on the result is \<open>String(x)\<close>.
\<close>

definition fixed_digits :: "nat \<Rightarrow> rat \<Rightarrow> string" where
  "fixed_digits f x =
     (let n = nat \<lfloor>\<bar>x\<bar> * 10 ^ f + 1 / 2\<rfloor>;
          m = String_padStart (f + 1) ''0'' (decimal n);
          k = length m
      in (if x < 0 then ''-'' else [])
         @ (if f = 0 then m else take (k - f) m @ ''.'' @ drop (k - f) m))"

definition Number_toFixed :: "nat \<Rightarrow> number \<Rightarrow> string" where
  "Number_toFixed f n =
     (case n of
        Fraction x s \<Rightarrow> fixed_digits f x
      | Integer i \<Rightarrow>
          (let x = to_double (nat \<bar>i\<bar>)
           in if 10 ^ 21 \<le> x then Number_toString i
              else fixed_digits f (if i < 0 then - of_nat x else of_nat x)))"

subsection \<open>Values\<close>

datatype jsvalue =
    Undefined
  | Null
  | Bool bool
  | Num number
  | Str string
  | Arr "jsvalue list"
  | Obj "(string \<times> jsvalue) list"

text \<open>
  \<open>Obj\<close> holds the members of a JSON object in the order of the text; of two members with
  the same name, the later one is the property.
\<close>

definition own_property :: "(string \<times> jsvalue) list \<Rightarrow> string \<Rightarrow> jsvalue option" where
  "own_property members name = map_of (rev members) name"

definition apostrophe :: string where
  "apostrophe = [CHR 0x27]"

definition cannot_read :: "string \<Rightarrow> string \<Rightarrow> js_error" where
  "cannot_read what name =
     Error (''Cannot read properties of '' @ what @ '' (reading '' @ apostrophe @ name
            @ apostrophe @ '')'')"

text \<open>
  \<open>v.name\<close> for the property names that the program reads (\<open>image_path\<close>, \<open>file\<close>,
  \<open>page\<close>, \<open>language\<close>, \<open>detections\<close>, \<open>type\<close>, \<open>text_sample\<close>, \<open>confidence\<close>,
  \<open>error\<close>, \<open>pages\<close>, \<open>length\<close>), none of which \<open>Object.prototype\<close> defines: a
  TypeError on \<open>undefined\<close> and \<open>null\<close>, the own property of an object, the length of an
  array or string, \<open>undefined\<close> otherwise.
\<close>

definition Get :: "jsvalue \<Rightarrow> string \<Rightarrow> js_error + jsvalue" where
  "Get v name =
     (case v of
        Undefined \<Rightarrow> Inl (cannot_read ''undefined'' name)
      | Null \<Rightarrow> Inl (cannot_read ''null'' name)
      | Obj members \<Rightarrow>
          Inr (case own_property members name of Some x \<Rightarrow> x | None \<Rightarrow> Undefined)
      | Arr xs \<Rightarrow>
          Inr (if name = ''length'' then Num (Integer (int (length xs))) else Undefined)
      | Str s \<Rightarrow>
          Inr (if name = ''length'' then Num (Integer (int (String_length s))) else Undefined)
      | Bool b \<Rightarrow> Inr Undefined
      | Num n \<Rightarrow> Inr Undefined)"

text \<open>The exception of calling a method that the receiver does not have.\<close>

definition no_method :: "jsvalue \<Rightarrow> string \<Rightarrow> string \<Rightarrow> js_error" where
  "no_method v expr name =
     (case v of
        Undefined \<Rightarrow> cannot_read ''undefined'' name
      | Null \<Rightarrow> cannot_read ''null'' name
      | Bool b \<Rightarrow> Error (expr @ ''.'' @ name @ '' is not a function'')
      | Num n \<Rightarrow> Error (expr @ ''.'' @ name @ '' is not a function'')
      | Str s \<Rightarrow> Error (expr @ ''.'' @ name @ '' is not a function'')
      | Arr xs \<Rightarrow> Error (expr @ ''.'' @ name @ '' is not a function'')
      | Obj members \<Rightarrow> Error (expr @ ''.'' @ name @ '' is not a function''))"

definition truthy :: "jsvalue \<Rightarrow> bool" where
  "truthy v =
     (case v of
        Undefined \<Rightarrow> False
      | Null \<Rightarrow> False
      | Bool b \<Rightarrow> b
      | Num n \<Rightarrow> \<not> number_is_zero n
      | Str s \<Rightarrow> s \<noteq> []
      | Arr xs \<Rightarrow> True
      | Obj members \<Rightarrow> True)"

text \<open>
  \<open>ToString\<close>, as \<open>String(v)\<close>, a template literal and a property key apply it. An array
  joins its elements with commas, \<open>undefined\<close> and \<open>null\<close> elements printing as nothing.
  An object prints through the inherited \<open>toString\<close>; a member named \<open>toString\<close> hides
  that method, is not callable itself, and the conversion throws.
\<close>

fun ToString :: "jsvalue \<Rightarrow> js_error + string" where
  "ToString Undefined = Inr ''undefined''"
| "ToString Null = Inr ''null''"
| "ToString (Bool b) = Inr (if b then ''true'' else ''false'')"
| "ToString (Num n) = Inr (number_print n)"
| "ToString (Str s) = Inr s"
| "ToString (Arr xs) =
     and_then
       (all_results (map (\<lambda>x. if x = Undefined \<or> x = Null then Inr [] else ToString x) xs))
       (\<lambda>parts. Inr (Array_join '','' parts))"
| "ToString (Obj members) =
     (if own_property members ''toString'' \<noteq> None
      then Inl (Error ''Cannot convert object to primitive value'')
      else Inr ''[object Object]'')"

text \<open>\<open>v.split(c)\<close> and \<open>v.toFixed(f)\<close>: methods of strings and of Numbers only.\<close>

definition call_split :: "jsvalue \<Rightarrow> string \<Rightarrow> char \<Rightarrow> js_error + string list" where
  "call_split v expr c =
     (case v of Str s \<Rightarrow> Inr (String_split c s) | _ \<Rightarrow> Inl (no_method v expr ''split''))"

definition call_toFixed :: "jsvalue \<Rightarrow> string \<Rightarrow> nat \<Rightarrow> js_error + string" where
  "call_toFixed v expr f =
     (case v of Num n \<Rightarrow> Inr (Number_toFixed f n) | _ \<Rightarrow> Inl (no_method v expr ''toFixed''))"

subsection \<open>Path Deriver\<close>

definition REPORT_PATH :: string where
  "REPORT_PATH = ''/api/report''"

definition UPLOAD_PATH :: string where
  "UPLOAD_PATH = ''/api/upload''"

definition IMAGE_ROOT :: string where
  "IMAGE_ROOT = ''/out/redacted_images''"

definition formatPage :: "jsvalue \<Rightarrow> js_error + string" where
  "formatPage page = and_then (ToString page) (\<lambda>s. Inr (String_padStart 3 ''0'' s))"

text \<open>
  \<^verbatim>\<open>filePath.split("/").pop().split(".").slice(0, -1).join(".")\<close>, then the template. The
  first \<open>split\<close> throws unless \<open>filePath\<close> is a string; were \<open>pop\<close> to give \<open>undefined\<close>,
  the second \<open>split\<close> would throw.
\<close>

definition buildImagePath :: "jsvalue \<Rightarrow> jsvalue \<Rightarrow> js_error + string" where
  "buildImagePath filePath page =
     and_then (call_split filePath ''filePath'' CHR ''/'')
       (\<lambda>segments.
          case Array_pop segments of
            None \<Rightarrow> Inl (cannot_read ''undefined'' ''split'')
          | Some segment \<Rightarrow>
              (let stem = Array_join ''.'' (Array_slice 0 (- 1) (String_split CHR ''.'' segment))
               in and_then (formatPage page)
                    (\<lambda>padded. Inr (IMAGE_ROOT @ ''/'' @ stem @ ''_'' @ padded @ ''.png''))))"

subsection \<open>The page: render regions, status line, file input, network log\<close>

datatype content = InnerHTML string | TextContent string

text \<open>
  A child of a region: the element that a markup string parses to, or an element made by
  \<open>createElement\<close> with its class name and the markup or text assigned to it.
\<close>

datatype node =
    Markup string
  | Element (tagName: string) (className: string) (content: content)

text \<open>
  Assigning \<open>innerHTML\<close> replaces all children by the parsed markup. Every non-empty markup
  that this program assigns to a region is a single element, kept as one \<open>Markup\<close> node.
\<close>

definition innerHTML :: "string \<Rightarrow> node list" where
  "innerHTML markup = (if markup = [] then [] else [Markup markup])"

record dashboard =
  gallery :: "node list"
  detectionsBody :: "node list"
  summary :: "node list"
  uploadStatus :: string
  fileInput :: "string list"
  requests :: "(string \<times> string) list"

text \<open>
  \<open>fileInput\<close> is \<open>fileInput.files\<close> (by name); \<open>requests\<close> logs the method and URL of
  every \<open>fetch\<close> issued, oldest first.
\<close>

definition ellipsis :: string where
  "ellipsis = [CHR 0xE2, CHR 0x80, CHR 0xA6]"

definition middle_dot :: string where
  "middle_dot = [CHR 0xC2, CHR 0xB7]"

definition newline :: string where
  "newline = [CHR 0x0A]"

subsection \<open>Renderer\<close>

text \<open>
  The objects that \<open>entries.map\<close> builds in \<open>loadReport\<close>: \<open>imagePath\<close> is the truthy
  \<open>image_path\<close> of the entry, of whatever type, or the derived path.
\<close>

record GalleryPage =
  imagePath :: jsvalue
  label :: string

definition card :: "GalleryPage \<Rightarrow> js_error + node" where
  \<open>card pg =
     and_then (ToString (imagePath pg))
       (\<lambda>src. Inr (Element ''div'' ''card'' (InnerHTML
          (newline @ ''      <img src="'' @ src @ ''" alt="'' @ label pg
             @ ''" loading="lazy" />'' @ newline
             @ ''      <h3>'' @ label pg @ ''</h3>'' @ newline @ ''    ''))))\<close>

definition renderGallery :: "GalleryPage list \<Rightarrow> dashboard \<Rightarrow> dashboard \<times> js_error option" where
  \<open>renderGallery pages d =
     (let d1 = d\<lparr>gallery := innerHTML []\<rparr>
      in if length pages = 0
         then (d1\<lparr>gallery := innerHTML ''<p class="empty">No redacted pages found.</p>''\<rparr>, None)
         else Array_forEach
                (\<lambda>pg d'. case card pg of
                            Inl e \<Rightarrow> (d', Some e)
                          | Inr c \<Rightarrow> (d'\<lparr>gallery := gallery d' @ [c]\<rparr>, None))
                pages d1)\<close>

text \<open>
  The accumulator of the \<open>reduce\<close> in \<open>renderSummary\<close> is an ordinary object \<open>{}\<close>: its own
  properties in creation order, over the prototype \<open>Object.prototype\<close>. A stored value is a
  count or, once an inherited member was read, a string.
\<close>

datatype stored = Count nat | Text string

type_synonym js_object = "(string \<times> stored) list"

definition Object_prototype_keys :: "string list" where
  "Object_prototype_keys =
     [''constructor'', ''__defineGetter__'', ''__defineSetter__'', ''hasOwnProperty'',
      ''__lookupGetter__'', ''__lookupSetter__'', ''isPrototypeOf'', ''propertyIsEnumerable'',
      ''toString'', ''valueOf'', ''__proto__'', ''toLocaleString'']"

text \<open>
  The string that an inherited method converts to (the layout of V8; the standard fixes the
  form \<open>function name() { [native code] }\<close> up to white space). \<open>constructor\<close> is the
  function \<open>Object\<close>.
\<close>

definition native_function_text :: "string \<Rightarrow> string" where
  "native_function_text key =
     ''function '' @ (if key = ''constructor'' then ''Object'' else key) @ ''() { [native code] }''"

text \<open>
  \<^verbatim>\<open>acc[detection.type] = (acc[detection.type] || 0) + 1\<close>. Reading \<open>type\<close> throws on
  \<open>undefined\<close> and \<open>null\<close>; the key is the string of the value read. An own count \<open>n\<close>
  becomes \<open>n + 1\<close>; an own non-empty string gets \<open>1\<close> appended; a key that is neither own
  nor inherited reads \<open>undefined\<close> and is created with 1. An inherited method is truthy,
  so \<open>+ 1\<close> concatenates its text with \<open>1\<close> and the assignment creates an own property. The
  inherited accessor \<open>__proto__\<close> is truthy too, and its setter ignores a string: no
  property is created.
\<close>

definition count_key :: "js_object \<Rightarrow> string \<Rightarrow> js_object" where
  "count_key acc key =
     (case map_of acc key of
        Some (Count n) \<Rightarrow> AList.update key (Count (n + 1)) acc
      | Some (Text s) \<Rightarrow> AList.update key (if s = [] then Count 1 else Text (s @ ''1'')) acc
      | None \<Rightarrow>
          if key = ''__proto__'' then acc
          else if key \<in> set Object_prototype_keys
          then AList.update key (Text (native_function_text key @ ''1'')) acc
          else AList.update key (Count 1) acc)"

definition count_detection :: "js_object \<Rightarrow> jsvalue \<Rightarrow> js_error + js_object" where
  "count_detection acc detection =
     and_then (Get detection ''type'')
       (\<lambda>t. and_then (ToString t) (\<lambda>key. Inr (count_key acc key)))"

text \<open>
  \<open>Object.entries\<close>: the own properties whose key is an array index (a canonical decimal
  numeral up to \<open>2^32 - 2\<close>) in ascending numeric order, then the others in creation order.
\<close>

definition index_value :: "string \<Rightarrow> nat" where
  "index_value key = foldl (\<lambda>n c. 10 * n + (of_char c - 48)) 0 key"

definition is_array_index :: "string \<Rightarrow> bool" where
  "is_array_index key \<longleftrightarrow>
     key \<noteq> [] \<and> list_all (\<lambda>c. c \<in> set ''0123456789'') key
     \<and> (key = ''0'' \<or> hd key \<noteq> CHR ''0'') \<and> index_value key \<le> 4294967294"

definition Object_entries :: "js_object \<Rightarrow> (string \<times> stored) list" where
  "Object_entries obj =
     sort_key (\<lambda>kv. index_value (fst kv)) (filter (\<lambda>kv. is_array_index (fst kv)) obj)
     @ filter (\<lambda>kv. \<not> is_array_index (fst kv)) obj"

text \<open>
  \<open>`${count}`\<close>: a count is at most the length of an array, a safe integer, and prints as
  its numeral.
\<close>

definition stored_toString :: "stored \<Rightarrow> string" where
  "stored_toString v = (case v of Count n \<Rightarrow> decimal n | Text s \<Rightarrow> s)"

definition pill :: "string \<times> stored \<Rightarrow> node" where
  "pill kv = Element ''div'' ''pill'' (TextContent (fst kv @ '': '' @ stored_toString (snd kv)))"

definition renderSummary :: "jsvalue list \<Rightarrow> dashboard \<Rightarrow> dashboard \<times> js_error option" where
  "renderSummary ds d =
     (let d1 = d\<lparr>summary := innerHTML []\<rparr>
      in if length ds = 0 then (d1, None)
         else (case Array_reduce count_detection [] ds of
                 Inl e \<Rightarrow> (d1, Some e)
               | Inr counts \<Rightarrow>
                   (foldl (\<lambda>d' kv. d'\<lparr>summary := summary d' @ [pill kv]\<rparr>) d1
                      (Object_entries counts), None)))"

text \<open>
  The row of one detection: the template reads its six values from left to right, and
  the first read or conversion that throws ends it.
\<close>

definition row :: "jsvalue \<Rightarrow> jsvalue \<Rightarrow> js_error + node" where
  "row entry detection =
     and_then (and_then (Get entry ''file'') ToString) (\<lambda>c1.
     and_then (and_then (Get entry ''page'') ToString) (\<lambda>c2.
     and_then (and_then (Get entry ''language'') ToString) (\<lambda>c3.
     and_then (and_then (Get detection ''type'') ToString) (\<lambda>c4.
     and_then (and_then (Get detection ''text_sample'') ToString) (\<lambda>c5.
     and_then (and_then (Get detection ''confidence'')
                 (\<lambda>c. call_toFixed c ''detection.confidence'' 2)) (\<lambda>c6.
     Inr (Element ''tr'' [] (InnerHTML
       (newline @ ''        <td>'' @ c1 @ ''</td>'' @ newline
          @ ''        <td>'' @ c2 @ ''</td>'' @ newline
          @ ''        <td>'' @ c3 @ ''</td>'' @ newline
          @ ''        <td>'' @ c4 @ ''</td>'' @ newline
          @ ''        <td>'' @ c5 @ ''</td>'' @ newline
          @ ''        <td>'' @ c6 @ ''</td>'' @ newline
          @ ''      '')))))))))"

definition no_detections_row :: string where
  \<open>no_detections_row = ''<tr><td colspan="6" class="empty">No detections in report.</td></tr>''\<close>

text \<open>
  The callback of \<open>entries.forEach\<close>: \<open>entry.detections.length\<close> throws on an entry or on
  detections that are \<open>undefined\<close> or \<open>null\<close>; with a truthy length, \<open>forEach\<close> exists on an
  array only.
\<close>

definition append_rows :: "jsvalue \<Rightarrow> dashboard \<Rightarrow> dashboard \<times> js_error option" where
  "append_rows entry d =
     (case and_then (Get entry ''detections'') (\<lambda>ds. and_then (Get ds ''length'') (\<lambda>n. Inr (ds, n))) of
        Inl e \<Rightarrow> (d, Some e)
      | Inr (ds, n) \<Rightarrow>
          if \<not> truthy n then (d, None)
          else (case ds of
                  Arr xs \<Rightarrow>
                    Array_forEach
                      (\<lambda>detection d'.
                         case row entry detection of
                           Inl e \<Rightarrow> (d', Some e)
                         | Inr r \<Rightarrow> (d'\<lparr>detectionsBody := detectionsBody d' @ [r]\<rparr>, None))
                      xs d
                | _ \<Rightarrow> (d, Some (no_method ds ''entry.detections'' ''forEach''))))"

definition renderDetections :: "jsvalue list \<Rightarrow> dashboard \<Rightarrow> dashboard \<times> js_error option" where
  "renderDetections entries d =
     (let d1 = d\<lparr>detectionsBody := innerHTML []\<rparr>
      in if length entries = 0
         then (d1\<lparr>detectionsBody := innerHTML no_detections_row\<rparr>, None)
         else (case Array_forEach append_rows entries d1 of
                 (d2, Some e) \<Rightarrow> (d2, Some e)
               | (d2, None) \<Rightarrow>
                   if length (detectionsBody d2) = 0
                   then (d2\<lparr>detectionsBody := innerHTML no_detections_row\<rparr>, None)
                   else (d2, None)))"

subsection \<open>Report Loader\<close>

text \<open>
  What \<open>fetch\<close> gives: the promise rejects with a network error, or resolves to a response
  with its \<open>ok\<close> flag and a body. \<open>response.json()\<close> rejects with the parser's SyntaxError
  on a body that is not JSON, and yields the parsed value otherwise, whatever its shape.
  The messages of both errors are chosen by the engine.
\<close>

datatype body = Unparseable string | Json jsvalue

datatype response = Rejected string | Response bool body

text \<open>
  The arrow function of \<open>entries.map\<close>: first \<open>entry.image_path || buildImagePath(...)\<close>,
  then the label, whose \<open>split\<close> throws unless \<open>entry.file\<close> is a string.
\<close>

definition to_page :: "jsvalue \<Rightarrow> js_error + GalleryPage" where
  "to_page entry =
     and_then
       (and_then (Get entry ''image_path'')
          (\<lambda>given. if truthy given then Inr given
                    else and_then (Get entry ''file'') (\<lambda>f.
                         and_then (Get entry ''page'') (\<lambda>p.
                         and_then (buildImagePath f p) (\<lambda>path. Inr (Str path))))))
       (\<lambda>path.
          and_then (Get entry ''file'') (\<lambda>f.
          and_then (call_split f ''entry.file'' CHR ''/'') (\<lambda>segments.
          and_then (ToString (case Array_pop segments of None \<Rightarrow> Undefined | Some s \<Rightarrow> Str s)) (\<lambda>name.
          and_then (Get entry ''page'') (\<lambda>p.
          and_then (ToString p) (\<lambda>number.
          Inr \<lparr>imagePath = path,
               label = name @ '' '' @ middle_dot @ '' Page '' @ number\<rparr>))))))"

text \<open>The arrow function of \<open>entries.flatMap\<close>; an array among the results is spread.\<close>

definition flatMap_detections :: "jsvalue list \<Rightarrow> js_error + jsvalue list" where
  "flatMap_detections entries =
     and_then (Array_map (\<lambda>entry. Get entry ''detections'') entries)
       (\<lambda>results. Inr (concat (map (\<lambda>r. case r of Arr xs \<Rightarrow> xs | _ \<Rightarrow> [r]) results)))"

text \<open>
  The \<open>try\<close> block: \<open>entries.map\<close> exists on an array only; the three render calls run in
  turn, each on the page the one before left, and the first exception ends the block.
\<close>

definition loadReport_try :: "response \<Rightarrow> dashboard \<Rightarrow> dashboard \<times> js_error option" where
  "loadReport_try resp d =
     (let d1 = d\<lparr>requests := requests d @ [(''GET'', REPORT_PATH)]\<rparr>
      in case resp of
           Rejected m \<Rightarrow> (d1, Some (Error m))
         | Response ok b \<Rightarrow>
             if \<not> ok then (d1, Some (Error ''Report not found''))
             else (case b of
                     Unparseable m \<Rightarrow> (d1, Some (Error m))
                   | Json entries \<Rightarrow>
                       (case entries of
                          Arr xs \<Rightarrow>
                            (case Array_map to_page xs of
                               Inl e \<Rightarrow> (d1, Some e)
                             | Inr pages \<Rightarrow>
                                 (case renderGallery pages d1 of
                                    (d2, Some e) \<Rightarrow> (d2, Some e)
                                  | (d2, None) \<Rightarrow>
                                      (case renderDetections xs d2 of
                                         (d3, Some e) \<Rightarrow> (d3, Some e)
                                       | (d3, None) \<Rightarrow>
                                           (case flatMap_detections xs of
                                              Inl e \<Rightarrow> (d3, Some e)
                                            | Inr allDetections \<Rightarrow>
                                                renderSummary allDetections d3))))
                        | _ \<Rightarrow> (d1, Some (no_method entries ''entries'' ''map'')))))"

text \<open>The loading placeholders, written before the \<open>try\<close> block.\<close>

definition show_loading :: "dashboard \<Rightarrow> dashboard" where
  \<open>show_loading d =
     d\<lparr>gallery := innerHTML (''<p class="empty">Loading redacted pages'' @ ellipsis @ ''</p>''),
        detectionsBody := innerHTML
          (''<tr><td colspan="6" class="empty">Loading detections'' @ ellipsis @ ''</td></tr>''),
        summary := innerHTML []\<rparr>\<close>

definition loadReport :: "dashboard \<Rightarrow> response \<Rightarrow> dashboard" where
  \<open>loadReport d resp =
     (case loadReport_try resp (show_loading d) of
        (d', None) \<Rightarrow> d'
      | (d', Some error) \<Rightarrow>
          d'\<lparr>gallery := innerHTML
                 ''<p class="empty">Unable to load report. Upload invoices to start.</p>'',
             detectionsBody := innerHTML
                 ''<tr><td colspan="6" class="empty">Report not available.</td></tr>''\<rparr>)\<close>

subsection \<open>Upload Controller\<close>

text \<open>
  The \<open>try\<close> block of the submit handler. On a non-success status, \<open>data.error\<close> throws
  on a body that parsed to \<open>null\<close>; \<open>data.error || "Upload failed"\<close> takes the fallback
  for every falsy value, and \<open>new Error(...)\<close> converts a truthy one to a string. On
  success, the template converts \<open>data.pages\<close>, and \<open>fileInput.value = ""\<close> empties the
  selection.
\<close>

definition submit_try :: "response \<Rightarrow> response \<Rightarrow> dashboard \<Rightarrow> dashboard \<times> js_error option" where
  "submit_try upload report d =
     (let d1 = d\<lparr>requests := requests d @ [(''POST'', UPLOAD_PATH)]\<rparr>
      in case upload of
           Rejected m \<Rightarrow> (d1, Some (Error m))
         | Response ok b \<Rightarrow>
             if \<not> ok
             then (case b of
                     Unparseable m \<Rightarrow> (d1, Some (Error m))
                   | Json data \<Rightarrow>
                       (case and_then (Get data ''error'')
                               (\<lambda>v. if truthy v then ToString v else Inr ''Upload failed'') of
                          Inl e \<Rightarrow> (d1, Some e)
                        | Inr msg \<Rightarrow> (d1, Some (Error msg))))
             else (case b of
                     Unparseable m \<Rightarrow> (d1, Some (Error m))
                   | Json data \<Rightarrow>
                       (case and_then (Get data ''pages'') ToString of
                          Inl e \<Rightarrow> (d1, Some e)
                        | Inr n \<Rightarrow>
                            (let d2 = d1\<lparr>uploadStatus := ''Processed '' @ n @ '' page(s).''\<rparr>;
                                 d3 = d2\<lparr>fileInput := []\<rparr>
                             in (loadReport d3 report, None)))))"

text \<open>
  The listener of the form's \<open>submit\<close> event; \<open>upload\<close> and \<open>report\<close> are the responses
  that the network gives to the POST and to the GET of the reload, if they are issued.
\<close>

definition uploadForm_submit :: "dashboard \<Rightarrow> response \<Rightarrow> response \<Rightarrow> dashboard" where
  "uploadForm_submit d upload report =
     (if length (fileInput d) = 0
      then d\<lparr>uploadStatus := ''Please select a file to upload.''\<rparr>
      else (let d0 = d\<lparr>uploadStatus := ''Uploading and processing'' @ ellipsis\<rparr>
            in case submit_try upload report d0 of
                 (d', None) \<Rightarrow> d'
               | (d', Some e) \<Rightarrow> d'\<lparr>uploadStatus := ''Error: '' @ message e\<rparr>))"

section \<open>Notions of the specification\<close>

text \<open>The text after the last occurrence of a character (all of it when there is none).\<close>

definition text_after_last :: "char \<Rightarrow> string \<Rightarrow> string" where
  "text_after_last c s = rev (takeWhile (\<lambda>x. x \<noteq> c) (rev s))"

text \<open>The text before the last occurrence of a character (empty when there is none).\<close>

definition text_before_last :: "char \<Rightarrow> string \<Rightarrow> string" where
  "text_before_last c s = rev (tl (dropWhile (\<lambda>x. x \<noteq> c) (rev s)))"

text \<open>
  The stem in the words of the specification: the segment with exactly its last extension
  removed, the whole segment when it contains no dot.
\<close>

definition spec_stem :: "string \<Rightarrow> string" where
  "spec_stem segment =
     (if CHR ''.'' \<in> set segment then text_before_last CHR ''.'' segment else segment)"

definition spec_padded_page :: "nat \<Rightarrow> string" where
  "spec_padded_page n = [digit_char (n div 100), digit_char (n div 10 mod 10), digit_char (n mod 10)]"

definition spec_image_path :: "string \<Rightarrow> nat \<Rightarrow> string" where
  "spec_image_path filePath n =
     IMAGE_ROOT @ ''/'' @ spec_stem (text_after_last CHR ''/'' filePath) @ ''_''
       @ spec_padded_page n @ ''.png''"

text \<open>
  The data model of the specification, and the body that carries it: a detection and a
  report entry as JSON objects.
\<close>

record Detection =
  type :: string
  text_sample :: string
  confidence :: number

record ReportEntry =
  file' :: string
  page :: int
  language :: string
  image_path :: "string option"
  detections :: "Detection list"

definition json_of_detection :: "Detection \<Rightarrow> jsvalue" where
  "json_of_detection x =
     Obj [(''type'', Str (type x)), (''text_sample'', Str (text_sample x)),
          (''confidence'', Num (confidence x))]"

definition json_of_entry :: "ReportEntry \<Rightarrow> jsvalue" where
  "json_of_entry entry =
     Obj ([(''file'', Str (file' entry)), (''page'', Num (Integer (page entry))),
           (''language'', Str (language entry))]
          @ (case image_path entry of None \<Rightarrow> [] | Some p \<Rightarrow> [(''image_path'', Str p)])
          @ [(''detections'', Arr (map json_of_detection (detections entry)))])"

definition json_of_report :: "ReportEntry list \<Rightarrow> jsvalue" where
  "json_of_report entries = Arr (map json_of_entry entries)"

text \<open>A parsed body that has the shape of the data model.\<close>

definition is_string :: "jsvalue option \<Rightarrow> bool" where
  "is_string v = (case v of Some (Str s) \<Rightarrow> True | _ \<Rightarrow> False)"

definition valid_detection :: "jsvalue \<Rightarrow> bool" where
  "valid_detection v =
     (case v of
        Obj members \<Rightarrow>
          is_string (own_property members ''type'')
          \<and> is_string (own_property members ''text_sample'')
          \<and> (case own_property members ''confidence'' of Some (Num n) \<Rightarrow> True | _ \<Rightarrow> False)
      | _ \<Rightarrow> False)"

definition valid_entry :: "jsvalue \<Rightarrow> bool" where
  "valid_entry v =
     (case v of
        Obj members \<Rightarrow>
          is_string (own_property members ''file'')
          \<and> (case own_property members ''page'' of Some (Num (Integer i)) \<Rightarrow> True | _ \<Rightarrow> False)
          \<and> is_string (own_property members ''language'')
          \<and> (case own_property members ''image_path'' of
                None \<Rightarrow> True | Some (Str s) \<Rightarrow> True | _ \<Rightarrow> False)
          \<and> (case own_property members ''detections'' of
                Some (Arr xs) \<Rightarrow> list_all valid_detection xs | _ \<Rightarrow> False)
      | _ \<Rightarrow> False)"

definition valid_report :: "jsvalue \<Rightarrow> bool" where
  "valid_report v = (case v of Arr xs \<Rightarrow> list_all valid_entry xs | _ \<Rightarrow> False)"

text \<open>The children of a region by kind: gallery cards and detection rows.\<close>

definition is_card :: "node \<Rightarrow> bool" where
  "is_card n = (case n of Markup m \<Rightarrow> False | Element tag cls c \<Rightarrow> tag = ''div'' \<and> cls = ''card'')"

definition is_detection_row :: "node \<Rightarrow> bool" where
  "is_detection_row n = (case n of Markup m \<Rightarrow> False | Element tag cls c \<Rightarrow> tag = ''tr'')"

text \<open>
  A report load that fails: a network error, a non-success status, a body that does not
  parse, or a parsed body on which the transformation or the rendering throws.
\<close>

definition blank_page :: dashboard where
  "blank_page = \<lparr>gallery = [], detectionsBody = [], summary = [], uploadStatus = [],
                  fileInput = [], requests = []\<rparr>"

fun load_fails :: "response \<Rightarrow> bool" where
  "load_fails (Rejected m) = True"
| "load_fails (Response ok (Unparseable m)) = True"
| "load_fails (Response ok (Json v)) =
     (\<not> ok \<or> snd (loadReport_try (Response True (Json v)) blank_page) \<noteq> None)"

text \<open>
  The message that the submit handler shows for a non-success response: that of the
  exception its \<open>try\<close> block ends with.
\<close>

definition upload_error_message :: "body \<Rightarrow> string" where
  "upload_error_message b =
     (case b of
        Unparseable m \<Rightarrow> m
      | Json data \<Rightarrow>
          (case and_then (Get data ''error'')
                  (\<lambda>v. if truthy v then ToString v else Inr ''Upload failed'') of
             Inl e \<Rightarrow> message e
           | Inr msg \<Rightarrow> msg))"

text \<open>
  What a traversal appends before it ends, and the exception that ends it: for a step
  that makes one node or throws, and for a step that makes several nodes and may throw.
\<close>

fun collect :: "('a \<Rightarrow> js_error + 'b) \<Rightarrow> 'a list \<Rightarrow> 'b list \<times> js_error option" where
  "collect f [] = ([], None)"
| "collect f (x # xs) =
     (case f x of
        Inl e \<Rightarrow> ([], Some e)
      | Inr y \<Rightarrow> (y # fst (collect f xs), snd (collect f xs)))"

fun collect_all :: "('a \<Rightarrow> 'b list \<times> js_error option) \<Rightarrow> 'a list \<Rightarrow> 'b list \<times> js_error option" where
  "collect_all g [] = ([], None)"
| "collect_all g (x # xs) =
     (case g x of
        (ys, Some e) \<Rightarrow> (ys, Some e)
      | (ys, None) \<Rightarrow> (ys @ fst (collect_all g xs), snd (collect_all g xs)))"

text \<open>The rows that one entry contributes, and the exception that ends them.\<close>

definition entry_rows :: "jsvalue \<Rightarrow> node list \<times> js_error option" where
  "entry_rows entry =
     (case and_then (Get entry ''detections'') (\<lambda>ds. and_then (Get ds ''length'') (\<lambda>n. Inr (ds, n))) of
        Inl e \<Rightarrow> ([], Some e)
      | Inr (ds, n) \<Rightarrow>
          if \<not> truthy n then ([], None)
          else (case ds of
                  Arr xs \<Rightarrow> collect (row entry) xs
                | _ \<Rightarrow> ([], Some (no_method ds ''entry.detections'' ''forEach''))))"

text \<open>The distinct elements of a stream in the order of their first occurrence.\<close>

fun first_seen :: "'a list \<Rightarrow> 'a list" where
  "first_seen [] = []"
| "first_seen (x # xs) = x # filter (\<lambda>y. y \<noteq> x) (first_seen xs)"

text \<open>
  The summary in the words of the specification: one pill per detection type, in first-seen
  order, showing the number of detections of that type.
\<close>

definition spec_summary_pills :: "Detection list \<Rightarrow> node list" where
  "spec_summary_pills ds =
     map (\<lambda>t. Element ''div'' ''pill''
                (TextContent (t @ '': '' @ decimal (count_list (map type ds) t))))
         (first_seen (map type ds))"

text \<open>
  A type string that the object \<open>counts\<close> treats as a plain key: not an array index and
  not the name of a member of \<open>Object.prototype\<close>.
\<close>

definition plain_key :: "string \<Rightarrow> bool" where
  "plain_key t \<longleftrightarrow> \<not> (is_array_index t \<or> t \<in> set Object_prototype_keys)"

text \<open>The count stored under a key, 0 when there is none; the sum of the stored counts.\<close>

definition number_at :: "js_object \<Rightarrow> string \<Rightarrow> nat" where
  "number_at obj k = (case map_of obj k of Some (Count n) \<Rightarrow> n | Some (Text s) \<Rightarrow> 0 | None \<Rightarrow> 0)"

definition sum_of_values :: "js_object \<Rightarrow> nat" where
  "sum_of_values obj = sum_list (map (\<lambda>kv. case snd kv of Count n \<Rightarrow> n | Text s \<Rightarrow> 0) obj)"

definition all_numbers :: "js_object \<Rightarrow> bool" where
  "all_numbers obj = list_all (\<lambda>kv. case snd kv of Count n \<Rightarrow> True | Text s \<Rightarrow> False) obj"

section \<open>Path Deriver: properties\<close>

lemma String_split_not_Nil: "String_split c s \<noteq> []"
  by (induction s) (auto split: list.splits)

lemma String_split_append:
  "String_split c (a @ c # b) = String_split c a @ String_split c b"
  by (induction a) (auto split: list.splits simp: String_split_not_Nil)

lemma String_split_no_sep: "c \<notin> set s \<Longrightarrow> String_split c s = [s]"
  by (induction s) auto

lemma Array_join_Cons_Cons: "Array_join sep ((x # w) # ws) = x # Array_join sep (w # ws)"
  by (cases ws) auto

lemma Array_join_split: "Array_join [c] (String_split c s) = s"
proof (induction s)
  case Nil
  show ?case by simp
next
  case (Cons x xs)
  obtain w ws where ws: "String_split c xs = w # ws"
    using String_split_not_Nil [of c xs] by (cases "String_split c xs") auto
  show ?case
  proof (cases "x = c")
    case True
    with Cons ws show ?thesis by simp
  next
    case False
    with Cons ws show ?thesis by (simp add: Array_join_Cons_Cons)
  qed
qed

lemma Array_slice_butlast: "Array_slice 0 (- 1) xs = butlast xs"
  by (cases "xs = []")
    (auto simp: Array_slice_def Let_def butlast_conv_take nat_diff_distrib' max_def)

lemma last_String_split: "last (String_split c s) = text_after_last c s"
proof (cases "c \<in> set s")
  case False
  then have "takeWhile (\<lambda>x. x \<noteq> c) (rev s) = rev s"
    by (intro takeWhile_eq_all_conv [THEN iffD2]) auto
  then have "rev (takeWhile (\<lambda>x. x \<noteq> c) (rev s)) = s"
    by (simp only: rev_rev_ident)
  moreover have "last (String_split c s) = s"
    by (simp add: String_split_no_sep [OF False])
  ultimately show ?thesis by (simp only: text_after_last_def)
next
  case True
  then obtain a b where s: "s = a @ c # b" and b: "c \<notin> set b"
    by (meson split_list_last)
  from b have "takeWhile (\<lambda>x. x \<noteq> c) (rev b @ c # rev a) = rev b"
    by (subst takeWhile_append2) auto
  with s b show ?thesis
    by (simp add: String_split_append String_split_no_sep text_after_last_def)
qed

lemma stem_text_before_last:
  "Array_join [c] (butlast (String_split c s)) = text_before_last c s"
proof (cases "c \<in> set s")
  case False
  then have dw: "dropWhile (\<lambda>x. x \<noteq> c) (rev s) = []" by auto
  from False show ?thesis
    by (simp add: String_split_no_sep text_before_last_def dw)
next
  case True
  then obtain a b where s: "s = a @ c # b" and b: "c \<notin> set b"
    by (meson split_list_last)
  from b have "dropWhile (\<lambda>x. x \<noteq> c) (rev b @ c # rev a) = c # rev a"
    by (auto simp: dropWhile_append3)
  with s b show ?thesis
    by (simp add: String_split_append String_split_no_sep Array_join_split text_before_last_def)
qed

lemma decimal_small: "n < 10 \<Longrightarrow> decimal n = [digit_char n]"
  by (simp add: decimal.simps)

lemma decimal_large: "10 \<le> n \<Longrightarrow> decimal n = decimal (n div 10) @ [digit_char (n mod 10)]"
  by (subst decimal.simps) simp

lemma decimal_not_Nil: "decimal n \<noteq> []"
  by (subst decimal.simps) simp

lemma length_decimal_ge: "10 ^ k \<le> n \<Longrightarrow> k < length (decimal n)"
proof (induction k arbitrary: n)
  case 0
  then show ?case using decimal_not_Nil [of n] by simp
next
  case (Suc k)
  then have "10 ^ k \<le> n div 10" by auto
  moreover have "10 \<le> n"
  proof -
    from Suc.prems have "10 * 10 ^ k \<le> n" by simp
    moreover have "(1::nat) \<le> 10 ^ k" by simp
    ultimately show ?thesis by linarith
  qed
  ultimately show ?case using Suc.IH [of "n div 10"]
    by (simp add: decimal_large)
qed

lemma digit_cases:
  "(d::nat) mod 10 = 0 \<or> d mod 10 = 1 \<or> d mod 10 = 2 \<or> d mod 10 = 3 \<or> d mod 10 = 4
    \<or> d mod 10 = 5 \<or> d mod 10 = 6 \<or> d mod 10 = 7 \<or> d mod 10 = 8 \<or> d mod 10 = 9"
  by arith

lemma of_char_digit_char: "of_char (digit_char d) = 48 + d mod 10"
  using digit_cases [of d] by (auto simp: digit_char_def)

lemma digit_char_is_digit: "digit_char d \<in> set ''0123456789''"
  using digit_cases [of d] by (auto simp: digit_char_def)

lemma digit_char_zero: "digit_char d = CHR ''0'' \<longleftrightarrow> d mod 10 = 0"
  using digit_cases [of d] by (auto simp: digit_char_def)

lemma index_value_snoc: "index_value (s @ [c]) = 10 * index_value s + (of_char c - 48)"
  by (simp add: index_value_def)

lemma index_value_decimal: "index_value (decimal n) = n"
proof (induction n rule: decimal.induct)
  case (1 n)
  show ?case
  proof (cases "n < 10")
    case True
    then show ?thesis
      by (simp add: decimal_small index_value_def of_char_digit_char)
  next
    case False
    with 1 show ?thesis
      by (simp add: decimal_large index_value_snoc of_char_digit_char)
  qed
qed

lemma decimal_digits: "list_all (\<lambda>c. c \<in> set ''0123456789'') (decimal n)"
proof (induction n rule: decimal.induct)
  case (1 n)
  show ?case
  proof (cases "n < 10")
    case True
    then show ?thesis
      using digit_char_is_digit [of n] by (simp add: decimal_small)
  next
    case False
    with 1 show ?thesis
      using digit_char_is_digit [of "n mod 10"] by (simp add: decimal_large)
  qed
qed

lemma hd_decimal: "0 < n \<Longrightarrow> hd (decimal n) \<noteq> CHR ''0''"
proof (induction n rule: decimal.induct)
  case (1 n)
  show ?case
  proof (cases "n < 10")
    case True
    with 1(2) show ?thesis by (simp add: decimal_small digit_char_zero)
  next
    case False
    then have "0 < n div 10" by simp
    with 1 False show ?thesis
      by (simp add: decimal_large decimal_not_Nil)
  qed
qed

lemma length_decimal_le: "0 < k \<Longrightarrow> n < 10 ^ k \<Longrightarrow> length (decimal n) \<le> k"
proof (induction k arbitrary: n)
  case 0
  then show ?case by simp
next
  case (Suc k)
  show ?case
  proof (cases "n < 10")
    case True
    then show ?thesis by (simp add: decimal_small)
  next
    case False
    with Suc.prems have "0 < k" by (cases k) auto
    moreover from Suc.prems have "n div 10 < 10 ^ k" by (simp add: less_mult_imp_div_less mult.commute)
    ultimately have "length (decimal (n div 10)) \<le> k" by (rule Suc.IH)
    with False show ?thesis by (simp add: decimal_large)
  qed
qed

subsection \<open>Numbers: the safe integers print as their numerals\<close>

lemma shift53_small: "m < 2 ^ 53 \<Longrightarrow> shift53 m = 0"
  by (subst shift53.simps) simp

lemma shift53_large: "2 ^ 53 \<le> m \<Longrightarrow> shift53 m = Suc (shift53 (m div 2))"
  by (subst shift53.simps) simp

lemma to_double_small: "m < 2 ^ 53 \<Longrightarrow> to_double m = m"
  by (simp add: to_double_def shift53_small)

lemma shift53_significand:
  "2 ^ 53 \<le> m \<Longrightarrow> 0 < shift53 m \<and> 2 ^ 52 \<le> m div 2 ^ shift53 m"
proof (induction m rule: shift53.induct)
  case (1 m)
  show ?case
  proof (cases "m div 2 < 2 ^ 53")
    case True
    from "1.prems" have "2 ^ 52 \<le> m div 2" by simp
    with True "1.prems" show ?thesis by (simp add: shift53_large shift53_small)
  next
    case False
    with "1.IH" "1.prems" have "2 ^ 52 \<le> m div 2 div 2 ^ shift53 (m div 2)" by simp
    then have "2 ^ 52 \<le> m div (2 * 2 ^ shift53 (m div 2))" by (simp add: div_mult2_eq)
    with "1.prems" show ?thesis by (simp add: shift53_large)
  qed
qed

lemma to_double_large:
  assumes "2 ^ 53 \<le> m"
  shows "2 ^ 53 \<le> to_double m"
proof -
  define e where "e = shift53 m"
  define q where "q = m div 2 ^ e"
  from shift53_significand [OF assms] have e: "0 < e" and q: "2 ^ 52 \<le> q"
    by (simp_all add: e_def q_def)
  from e have "(2::nat) ^ 1 \<le> 2 ^ e" by (intro power_increasing) simp_all
  then have "(2::nat) \<le> 2 ^ e" by simp
  with q have "2 ^ 52 * 2 \<le> q * 2 ^ e" by (rule mult_le_mono)
  then have low: "2 ^ 53 \<le> q * 2 ^ e" by simp
  then have "2 ^ 53 \<le> (q + 1) * 2 ^ e" by (simp add: add_mult_distrib)
  with low show ?thesis by (simp add: to_double_def Let_def e_def [symmetric] q_def [symmetric])
qed

lemma shortest_decimal_safe: "x < 2 ^ 53 \<Longrightarrow> shortest_decimal x j = x"
proof (induction j)
  case 0
  show ?case by simp
next
  case (Suc j)
  define lo where "lo = x div 10 ^ Suc j * 10 ^ Suc j"
  define hi where "hi = lo + 10 ^ Suc j"
  have "lo \<le> x" by (simp add: lo_def)
  with Suc.prems have lo: "to_double lo = lo" by (simp add: to_double_small)
  have "x mod 10 ^ Suc j < 10 ^ Suc j" by simp
  moreover have "x = lo + x mod 10 ^ Suc j"
    unfolding lo_def by (rule div_mult_mod_eq [symmetric])
  ultimately have "x < hi" unfolding hi_def by linarith
  have hi: "to_double hi \<noteq> x"
  proof (cases "hi < 2 ^ 53")
    case True
    with \<open>x < hi\<close> show ?thesis by (simp add: to_double_small)
  next
    case False
    then have "2 ^ 53 \<le> to_double hi" by (intro to_double_large) simp
    with Suc.prems show ?thesis by simp
  qed
  from Suc.IH [OF Suc.prems] lo hi show ?case
    by (simp add: Let_def lo_def [symmetric] hi_def [symmetric] del: power_Suc)
qed

lemma shortest_decimal_unfold:
  "0 < j \<Longrightarrow> shortest_decimal x j =
     (let lo = x div 10 ^ j * 10 ^ j;
          hi = lo + 10 ^ j;
          oklo = (to_double lo = x);
          okhi = (to_double hi = x)
      in if oklo \<and> okhi
         then (if x - lo < hi - x then lo
               else if hi - x < x - lo then hi
               else if even (lo div 10 ^ j) then lo else hi)
         else if oklo then lo
         else if okhi then hi
         else shortest_decimal x (j - 1))"
  by (cases j) (simp_all add: Let_def)

lemma print_double_exponent:
  assumes "length (decimal x) = Suc j" "shortest_decimal x j = c"
    and "length (decimal c) = Suc n" "21 \<le> n"
    and "rev (dropWhile (\<lambda>c. c = CHR ''0'') (rev (decimal c))) = [s]"
  shows "print_double x = s # ''e+'' @ decimal n"
  using assms by (simp add: print_double_def Let_def)

lemma print_double_safe:
  assumes "x < 2 ^ 53"
  shows "print_double x = decimal x"
proof -
  have "(2::nat) ^ 53 < 10 ^ 16" by simp
  with assms have "x < 10 ^ 16" by simp
  then have "length (decimal x) \<le> 16" by (intro length_decimal_le) simp_all
  then show ?thesis
    by (simp add: print_double_def Let_def shortest_decimal_safe [OF assms])
qed

lemma Number_toString_safe:
  assumes "0 \<le> i" "i \<le> MAX_SAFE_INTEGER"
  shows "Number_toString i = decimal (nat i)"
proof -
  from assms have small: "nat i < 2 ^ 53" by (simp add: MAX_SAFE_INTEGER_def)
  then have "to_double (nat i) = nat i" by (rule to_double_small)
  moreover have "(2::nat) ^ 53 < 2 ^ 1024" by simp
  with small have "\<not> 2 ^ 1024 \<le> nat i" by linarith
  ultimately show ?thesis
    using assms(1) by (simp add: Number_toString_def Let_def print_double_safe [OF small])
qed

lemma formatPage_Integer:
  "formatPage (Num (Integer i)) = Inr (String_padStart 3 ''0'' (Number_toString i))"
  by (simp add: formatPage_def and_then_def number_print_def)

lemma formatPage_3digits:
  assumes "0 \<le> p" "p \<le> 999"
  shows "formatPage (Num (Integer p)) = Inr (spec_padded_page (nat p))"
proof -
  define n where "n = nat p"
  have n: "n \<le> 999" "p = int n" using assms by (auto simp: n_def)
  from assms have ts: "Number_toString p = decimal n"
    by (simp add: Number_toString_safe MAX_SAFE_INTEGER_def n_def)
  have z: "digit_char 0 = CHR ''0''" by (simp add: digit_char_def)
  consider "n < 10" | "10 \<le> n" "n < 100" | "100 \<le> n" by linarith
  then have "String_padStart 3 ''0'' (decimal n) = spec_padded_page n"
  proof cases
    case 1
    then show ?thesis
      by (simp add: decimal_small String_padStart_def z numeral_3_eq_3 spec_padded_page_def)
  next
    case 2
    then have "decimal n = [digit_char (n div 10), digit_char (n mod 10)]"
      by (simp add: decimal_large decimal_small)
    with 2 show ?thesis by (simp add: String_padStart_def z spec_padded_page_def)
  next
    case 3
    with n have "n div 10 < 100" "10 \<le> n div 10" by auto
    then have "decimal (n div 10) = [digit_char (n div 10 div 10), digit_char (n div 10 mod 10)]"
      by (simp add: decimal_large decimal_small)
    with 3 have "decimal n = [digit_char (n div 100), digit_char (n div 10 mod 10), digit_char (n mod 10)]"
      by (simp add: decimal_large div_mult2_eq [symmetric])
    then show ?thesis by (simp add: String_padStart_def spec_padded_page_def)
  qed
  then show ?thesis by (simp add: formatPage_Integer ts n_def)
qed

text \<open>The path that the code derives from a string and a page that converts to a string.\<close>

lemma buildImagePath_eq:
  "buildImagePath (Str filePath) p =
     and_then (formatPage p)
       (\<lambda>padded. Inr (IMAGE_ROOT @ ''/''
          @ text_before_last CHR ''.'' (text_after_last CHR ''/'' filePath)
          @ ''_'' @ padded @ ''.png''))"
  using stem_text_before_last [of "CHR ''.''" "text_after_last CHR ''/'' filePath"]
  by (simp add: buildImagePath_def call_split_def and_then_def Array_pop_def
      String_split_not_Nil last_String_split Array_slice_butlast)

text \<open>
  Where the final segment has an extension and the page is in \<open>[0, 999]\<close>, the derived
  path is the one the specification describes.
\<close>

lemma buildImagePath_dotted:
  assumes "CHR ''.'' \<in> set (text_after_last CHR ''/'' filePath)" "0 \<le> p" "p \<le> 999"
  shows "buildImagePath (Str filePath) (Num (Integer p)) = Inr (spec_image_path filePath (nat p))"
  using assms
  by (simp add: buildImagePath_eq spec_image_path_def spec_stem_def formatPage_3digits and_then_def)

text \<open>
  C1. The claim: for every non-empty file path and page in \<open>[0, 999]\<close> the derived path is
  \<open><imageRoot>/<stem>_<paddedPage>.png\<close>, the stem being the whole final segment when it
  contains no dot. The code drops the last dot-separated piece of the segment
  unconditionally: for the file path \<open>scan\<close>, which has no extension, the stem is empty and
  the path is \<open>/out/redacted_images/_001.png\<close>, where the claim has
  \<open>/out/redacted_images/scan_001.png\<close>.
\<close>

theorem buildImagePath_no_extension:
  "buildImagePath (Str ''scan'') (Num (Integer 1)) = Inr ''/out/redacted_images/_001.png''
   \<and> spec_image_path ''scan'' 1 = ''/out/redacted_images/scan_001.png''"
proof -
  have "formatPage (Num (Integer 1)) = Inr ''001''"
    using formatPage_3digits [of 1] by (simp add: spec_padded_page_def digit_char_def)
  then show ?thesis
    by (simp add: buildImagePath_eq and_then_def IMAGE_ROOT_def text_before_last_def
        text_after_last_def spec_image_path_def spec_stem_def spec_padded_page_def digit_char_def)
qed

text \<open>
  C10, as the code has it. For every integer page from 1000 up to the largest safe
  integer, \<open>padStart\<close> changes nothing: \<open>formatPage\<close> returns the decimal numeral of the
  page, at least four digits, none dropped and no zero put in front; and for a file path
  whose final segment has an extension, the derived path carries that numeral as its page
  field after the stem.
\<close>

theorem formatPage_wide:
  assumes "1000 \<le> p" "Number_isSafeInteger p"
  shows "formatPage (Num (Integer p)) = Inr (decimal (nat p))
         \<and> 4 \<le> length (decimal (nat p))
         \<and> list_all (\<lambda>c. c \<in> set ''0123456789'') (decimal (nat p))
         \<and> index_value (decimal (nat p)) = nat p
         \<and> hd (decimal (nat p)) \<noteq> CHR ''0''
         \<and> (CHR ''.'' \<in> set (text_after_last CHR ''/'' filePath) \<longrightarrow>
              buildImagePath (Str filePath) (Num (Integer p)) =
                Inr (IMAGE_ROOT @ ''/'' @ spec_stem (text_after_last CHR ''/'' filePath)
                     @ ''_'' @ decimal (nat p) @ ''.png''))"
proof -
  from assms(1) have "10 ^ 3 \<le> nat p" by simp
  then have len: "3 < length (decimal (nat p))" by (rule length_decimal_ge)
  from assms have ts: "Number_toString p = decimal (nat p)"
    by (intro Number_toString_safe) (simp_all add: Number_isSafeInteger_def)
  from len have fp: "formatPage (Num (Integer p)) = Inr (decimal (nat p))"
    by (simp add: formatPage_Integer String_padStart_def ts)
  from assms(1) have "0 < nat p" by simp
  then have "hd (decimal (nat p)) \<noteq> CHR ''0''" by (rule hd_decimal)
  with len decimal_digits [of "nat p"] show ?thesis
    by (simp add: fp buildImagePath_eq index_value_decimal and_then_def spec_stem_def)
qed

theorem formatPage_wide_witness:
  "(1000::int) \<le> 1234 \<and> Number_isSafeInteger 1234
   \<and> formatPage (Num (Integer 1234)) = Inr ''1234''
   \<and> buildImagePath (Str ''a/inv.pdf'') (Num (Integer 1234))
       = Inr ''/out/redacted_images/inv_1234.png''"
proof -
  have h1: "(1000::int) \<le> 1234" by simp
  have h2: "Number_isSafeInteger 1234"
    by (simp add: Number_isSafeInteger_def MAX_SAFE_INTEGER_def)
  have ts: "decimal 1234 = ''1234''"
    by (simp add: decimal.simps digit_char_def)
  have seg: "text_after_last CHR ''/'' ''a/inv.pdf'' = ''inv.pdf''"
    by (simp add: text_after_last_def)
  have st: "spec_stem ''inv.pdf'' = ''inv''"
    by (simp add: spec_stem_def text_before_last_def)
  from formatPage_wide [OF h1 h2, of "''a/inv.pdf''"] h1 h2 show ?thesis
    by (simp add: ts seg st IMAGE_ROOT_def)
qed

text \<open>
  C10, as the claim has it, fails for a page beyond the safe integers: \<open>String(page)\<close>
  prints the double. The page \<open>10^21\<close> is printed in exponent form, \<open>1e+21\<close>, not as its
  decimal numeral of 22 digits.
\<close>

theorem formatPage_wide_counterexample:
  "formatPage (Num (Integer 1000000000000000000000)) = Inr ''1e+21''
   \<and> decimal 1000000000000000000000 = ''1000000000000000000000''
   \<and> formatPage (Num (Integer 1000000000000000000000))
       \<noteq> Inr (decimal 1000000000000000000000)"
proof -
  have d1: "to_double 1000000000000000000000 = 1000000000000000000000"
    by (simp add: to_double_def shift53.simps Let_def)
  have d2: "to_double 2000000000000000000000 = 2000000000000000000000"
    by (simp add: to_double_def shift53.simps Let_def)
  have dec: "decimal 1000000000000000000000 = ''1000000000000000000000''"
    by (simp add: decimal.simps digit_char_def)
  have sh: "shortest_decimal 1000000000000000000000 21 = 1000000000000000000000"
    by (subst shortest_decimal_unfold) (simp_all add: d1 d2 Let_def)
  have len: "length (decimal 1000000000000000000000) = Suc 21"
    by (simp add: dec)
  have strip: "rev (dropWhile (\<lambda>c. c = CHR ''0'') (rev (decimal 1000000000000000000000)))
      = [CHR ''1'']"
    by (simp add: dec)
  have "print_double 1000000000000000000000 = CHR ''1'' # ''e+'' @ decimal 21"
    by (rule print_double_exponent [OF len sh len _ strip]) simp
  moreover have "decimal 21 = ''21''"
    by (simp add: decimal.simps digit_char_def)
  ultimately have pr: "print_double 1000000000000000000000 = ''1e+21''"
    by simp
  have "\<not> (2::nat) ^ 1024 \<le> 1000000000000000000000" by simp
  then have "Number_toString 1000000000000000000000 = ''1e+21''"
    by (simp add: Number_toString_def d1 pr Let_def)
  then have "formatPage (Num (Integer 1000000000000000000000)) = Inr ''1e+21''"
    by (simp add: formatPage_Integer String_padStart_def)
  with dec show ?thesis by simp
qed

section \<open>Renderer: properties\<close>

lemma forEach_cards:
  "Array_forEach
     (\<lambda>pg d'. case card pg of
                 Inl e \<Rightarrow> (d', Some e)
               | Inr c \<Rightarrow> (d'\<lparr>gallery := gallery d' @ [c]\<rparr>, None)) pgs d
   = (d\<lparr>gallery := gallery d @ fst (collect card pgs)\<rparr>, snd (collect card pgs))"
proof (induction pgs arbitrary: d)
  case Nil
  show ?case by simp
next
  case (Cons pg pgs)
  show ?case by (cases "card pg") (simp_all add: Cons)
qed

lemma forEach_rows:
  "Array_forEach
     (\<lambda>detection d'. case row entry detection of
                        Inl e \<Rightarrow> (d', Some e)
                      | Inr r \<Rightarrow> (d'\<lparr>detectionsBody := detectionsBody d' @ [r]\<rparr>, None)) xs d
   = (d\<lparr>detectionsBody := detectionsBody d @ fst (collect (row entry) xs)\<rparr>,
      snd (collect (row entry) xs))"
proof (induction xs arbitrary: d)
  case Nil
  show ?case by simp
next
  case (Cons x xs)
  show ?case by (cases "row entry x") (simp_all add: Cons)
qed

lemma append_rows_eq:
  "append_rows entry d
   = (d\<lparr>detectionsBody := detectionsBody d @ fst (entry_rows entry)\<rparr>, snd (entry_rows entry))"
  by (simp add: append_rows_def entry_rows_def forEach_rows
      split: sum.split prod.split jsvalue.split)

lemma forEach_entries:
  "Array_forEach append_rows es d
   = (d\<lparr>detectionsBody := detectionsBody d @ fst (collect_all entry_rows es)\<rparr>,
      snd (collect_all entry_rows es))"
proof (induction es arbitrary: d)
  case Nil
  show ?case by simp
next
  case (Cons entry es)
  obtain rs x where r: "entry_rows entry = (rs, x)" by (cases "entry_rows entry")
  then have step: "append_rows entry d = (d\<lparr>detectionsBody := detectionsBody d @ rs\<rparr>, x)"
    by (simp add: append_rows_eq)
  show ?case by (cases x) (simp_all add: step r Cons)
qed

lemma Object_entries_Nil: "Object_entries [] = []"
  by (simp add: Object_entries_def)

lemma foldl_summary:
  "foldl (\<lambda>d' kv. d'\<lparr>summary := summary d' @ [pill kv]\<rparr>) d kvs
   = d\<lparr>summary := summary d @ map pill kvs\<rparr>"
  by (induction kvs arbitrary: d) simp_all

text \<open>
  Each render operation overwrites its own region and nothing else, with content that
  the view model alone determines, and throws or not as the view model alone determines.
\<close>

lemma renderGallery_eq:
  \<open>renderGallery pgs d =
     (d\<lparr>gallery := (if pgs = [] then [Markup ''<p class="empty">No redacted pages found.</p>'']
                       else fst (collect card pgs))\<rparr>,
      snd (collect card pgs))\<close>
  by (simp add: renderGallery_def innerHTML_def forEach_cards)

lemma renderDetections_eq:
  "renderDetections es d =
     (d\<lparr>detectionsBody :=
          (if snd (collect_all entry_rows es) = None \<and> fst (collect_all entry_rows es) = []
           then [Markup no_detections_row]
           else fst (collect_all entry_rows es))\<rparr>,
      snd (collect_all entry_rows es))"
proof -
  have ne: "no_detections_row \<noteq> []" by (simp add: no_detections_row_def)
  obtain rs x where r: "collect_all entry_rows es = (rs, x)"
    by (cases "collect_all entry_rows es")
  show ?thesis
    by (cases "es = []"; cases x)
      (simp_all add: renderDetections_def innerHTML_def forEach_entries ne Let_def r)
qed

lemma renderSummary_eq:
  "renderSummary ds d =
     (d\<lparr>summary := (case Array_reduce count_detection [] ds of
                       Inl e \<Rightarrow> []
                     | Inr counts \<Rightarrow> map pill (Object_entries counts))\<rparr>,
      (case Array_reduce count_detection [] ds of Inl e \<Rightarrow> Some e | Inr counts \<Rightarrow> None))"
proof (cases "ds = []")
  case True
  then show ?thesis
    by (simp add: renderSummary_def innerHTML_def Object_entries_Nil Let_def)
next
  case False
  then show ?thesis
    by (cases "Array_reduce count_detection [] ds")
      (simp_all add: renderSummary_def innerHTML_def foldl_summary Let_def)
qed

text \<open>
  C9. Each of the three render operations is idempotent: rendering the same view model a
  second time leaves the page as the first call left it (and ends as the first call
  ended). The operation clears its region first, so the outcome does not depend on what
  the region held before.
\<close>

theorem render_idempotent:
  "renderGallery pgs (fst (renderGallery pgs d)) = renderGallery pgs d
   \<and> renderDetections es (fst (renderDetections es d)) = renderDetections es d
   \<and> renderSummary ds (fst (renderSummary ds d)) = renderSummary ds d
   \<and> renderGallery pgs (d\<lparr>gallery := g\<rparr>) = renderGallery pgs d
   \<and> renderDetections es (d\<lparr>detectionsBody := b\<rparr>) = renderDetections es d
   \<and> renderSummary ds (d\<lparr>summary := s\<rparr>) = renderSummary ds d"
  by (simp add: renderGallery_eq renderDetections_eq renderSummary_eq)

section \<open>Report Loader: properties\<close>

lemma and_then_Inr [simp]: "and_then (Inr x) f = f x"
  by (simp add: and_then_def)

lemma and_then_Inl [simp]: "and_then (Inl e) f = Inl e"
  by (simp add: and_then_def)

text \<open>
  The \<open>try\<close> block issues the one GET and writes to the three regions only; when it ends
  with an exception, the summary is as it was or empty.
\<close>

lemma loadReport_try_frame:
  "uploadStatus (fst (loadReport_try resp d)) = uploadStatus d
   \<and> fileInput (fst (loadReport_try resp d)) = fileInput d
   \<and> requests (fst (loadReport_try resp d)) = requests d @ [(''GET'', REPORT_PATH)]"
  by (simp add: loadReport_try_def renderGallery_eq renderDetections_eq renderSummary_eq Let_def
      split: response.split body.split jsvalue.split sum.split option.split)

lemma loadReport_try_summary:
  assumes "snd (loadReport_try resp d) \<noteq> None"
  shows "summary (fst (loadReport_try resp d)) = summary d
         \<or> summary (fst (loadReport_try resp d)) = []"
  using assms
  by (auto simp: loadReport_try_def renderGallery_eq renderDetections_eq renderSummary_eq Let_def
      split: response.splits body.splits jsvalue.splits sum.splits option.splits if_splits)

lemma loadReport_try_exception:
  "snd (loadReport_try resp d) = snd (loadReport_try resp d')"
  by (simp add: loadReport_try_def renderGallery_eq renderDetections_eq renderSummary_eq Let_def
      split: response.split body.split jsvalue.split sum.split option.split)

lemma load_fails_iff:
  "load_fails resp \<longleftrightarrow> snd (loadReport_try resp d) \<noteq> None"
proof (cases resp)
  case (Rejected m)
  then show ?thesis by (simp add: loadReport_try_def Let_def)
next
  case (Response ok b)
  show ?thesis
  proof (cases b)
    case (Unparseable m)
    with Response show ?thesis by (simp add: loadReport_try_def Let_def)
  next
    case (Json v)
    show ?thesis
    proof (cases ok)
      case True
      with Response Json show ?thesis
        using loadReport_try_exception [of "Response True (Json v)" blank_page d] by simp
    next
      case False
      with Response Json show ?thesis by (simp add: loadReport_try_def Let_def)
    qed
  qed
qed

text \<open>The page after a load that fails.\<close>

lemma loadReport_failure:
  assumes "load_fails resp"
  shows \<open>gallery (loadReport d resp)
           = [Markup ''<p class="empty">Unable to load report. Upload invoices to start.</p>'']
         \<and> detectionsBody (loadReport d resp)
           = [Markup ''<tr><td colspan="6" class="empty">Report not available.</td></tr>'']
         \<and> summary (loadReport d resp) = []\<close>
proof -
  obtain d' x where r: "loadReport_try resp (show_loading d) = (d', x)"
    by (cases "loadReport_try resp (show_loading d)")
  with assms obtain e where x: "x = Some e"
    using load_fails_iff [of resp "show_loading d"] by auto
  have "summary (show_loading d) = []" by (simp add: show_loading_def innerHTML_def)
  with loadReport_try_summary [of resp "show_loading d"] r x have "summary d' = []" by auto
  with r x show ?thesis by (simp add: loadReport_def innerHTML_def)
qed

lemma loadReport_keeps_status:
  "uploadStatus (loadReport d resp) = uploadStatus d \<and> fileInput (loadReport d resp) = fileInput d
   \<and> requests (loadReport d resp) = requests d @ [(''GET'', REPORT_PATH)]"
proof -
  obtain d' x where r: "loadReport_try resp (show_loading d) = (d', x)"
    by (cases "loadReport_try resp (show_loading d)")
  with loadReport_try_frame [of resp "show_loading d"]
  have "uploadStatus d' = uploadStatus d \<and> fileInput d' = fileInput d
      \<and> requests d' = requests d @ [(''GET'', REPORT_PATH)]"
    by (simp add: show_loading_def)
  with r show ?thesis by (cases x) (simp_all add: loadReport_def)
qed

text \<open>Causes of a failed load in a parsed body.\<close>

lemma load_fails_not_array:
  assumes "\<forall>xs. v \<noteq> Arr xs"
  shows "load_fails (Response True (Json v))"
  using assms by (cases v) (simp_all add: loadReport_try_def)

lemma load_fails_entry:
  assumes "Array_map to_page xs = Inl e"
  shows "load_fails (Response True (Json (Arr xs)))"
  using assms by (simp add: loadReport_try_def)

subsection \<open>Bodies of the data model\<close>

lemma to_page_typed:
  "\<exists>path lbl. to_page (json_of_entry entry) = Inr \<lparr>imagePath = Str path, label = lbl\<rparr>"
  by (simp add: to_page_def json_of_entry_def Get_def own_property_def truthy_def
      buildImagePath_eq formatPage_Integer call_split_def Array_pop_def String_split_not_Nil
      split: option.split)

lemma card_Str: "\<exists>c. card \<lparr>imagePath = Str path, label = lbl\<rparr> = Inr c \<and> is_card c"
  by (simp add: card_def is_card_def)

lemma typed_pages:
  "\<exists>pgs cs. Array_map to_page (map json_of_entry es) = Inr pgs
      \<and> collect card pgs = (cs, None) \<and> length pgs = length es \<and> length cs = length es
      \<and> list_all is_card cs"
proof (induction es)
  case Nil
  show ?case by (simp add: Array_map_def)
next
  case (Cons entry es)
  then obtain pgs cs where IH: "Array_map to_page (map json_of_entry es) = Inr pgs"
    "collect card pgs = (cs, None)" "length pgs = length es" "length cs = length es"
    "list_all is_card cs"
    by blast
  obtain path lbl where pg: "to_page (json_of_entry entry) = Inr \<lparr>imagePath = Str path, label = lbl\<rparr>"
    using to_page_typed by blast
  obtain c where c: "card \<lparr>imagePath = Str path, label = lbl\<rparr> = Inr c" "is_card c"
    using card_Str by blast
  from IH pg c show ?case by (simp add: Array_map_def)
qed

lemma row_typed:
  "\<exists>r. row (json_of_entry entry) (json_of_detection x) = Inr r \<and> is_detection_row r"
  by (simp add: row_def json_of_entry_def json_of_detection_def Get_def own_property_def
      call_toFixed_def is_detection_row_def split: option.split)

lemma collect_rows_typed:
  "\<exists>rs. collect (row (json_of_entry entry)) (map json_of_detection xs) = (rs, None)
      \<and> length rs = length xs \<and> list_all is_detection_row rs"
proof (induction xs)
  case Nil
  show ?case by simp
next
  case (Cons x xs)
  then obtain rs where IH: "collect (row (json_of_entry entry)) (map json_of_detection xs) = (rs, None)"
    "length rs = length xs" "list_all is_detection_row rs"
    by blast
  obtain r where r: "row (json_of_entry entry) (json_of_detection x) = Inr r" "is_detection_row r"
    using row_typed by blast
  from IH r show ?case by simp
qed

lemma Get_detections_typed:
  "Get (json_of_entry entry) ''detections'' = Inr (Arr (map json_of_detection (detections entry)))"
  by (simp add: json_of_entry_def Get_def own_property_def split: option.split)

lemma Get_length_Arr: "Get (Arr xs) ''length'' = Inr (Num (Integer (int (length xs))))"
  by (simp add: Get_def)

lemma entry_rows_typed:
  "\<exists>rs. entry_rows (json_of_entry entry) = (rs, None)
      \<and> length rs = length (detections entry) \<and> list_all is_detection_row rs"
proof (cases "detections entry = []")
  case True
  then show ?thesis
    by (simp add: entry_rows_def Get_detections_typed Get_length_Arr truthy_def number_is_zero_def)
next
  case False
  obtain rs where rs: "collect (row (json_of_entry entry)) (map json_of_detection (detections entry))
      = (rs, None)" "length rs = length (detections entry)" "list_all is_detection_row rs"
    using collect_rows_typed by blast
  with False show ?thesis
    by (simp add: entry_rows_def Get_detections_typed Get_length_Arr truthy_def number_is_zero_def)
qed

lemma collect_all_typed:
  "\<exists>rs. collect_all entry_rows (map json_of_entry es) = (rs, None)
      \<and> length rs = sum_list (map (\<lambda>entry. length (detections entry)) es)
      \<and> list_all is_detection_row rs"
proof (induction es)
  case Nil
  show ?case by simp
next
  case (Cons entry es)
  then obtain rs where IH: "collect_all entry_rows (map json_of_entry es) = (rs, None)"
    "length rs = sum_list (map (\<lambda>entry. length (detections entry)) es)"
    "list_all is_detection_row rs"
    by blast
  obtain rs' where r: "entry_rows (json_of_entry entry) = (rs', None)"
    "length rs' = length (detections entry)" "list_all is_detection_row rs'"
    using entry_rows_typed by blast
  from IH r show ?case by simp
qed

lemma flatMap_typed:
  "flatMap_detections (map json_of_entry es)
   = Inr (map json_of_detection (concat (map detections es)))"
proof -
  have "Array_map (\<lambda>entry. Get entry ''detections'') (map json_of_entry es)
      = Inr (map (\<lambda>entry. Arr (map json_of_detection (detections entry))) es)"
    by (induction es) (simp_all add: Array_map_def Get_detections_typed)
  then show ?thesis
    by (simp add: flatMap_detections_def o_def map_concat)
qed

lemma count_detection_typed:
  "count_detection acc (json_of_detection x) = Inr (count_key acc (type x))"
  by (simp add: count_detection_def json_of_detection_def Get_def own_property_def)

lemma reduce_typed:
  "Array_reduce count_detection acc (map json_of_detection ds)
   = Inr (foldl count_key acc (map type ds))"
  by (induction ds arbitrary: acc) (simp_all add: count_detection_typed)

text \<open>The summary that a list of detections of the data model renders to.\<close>

lemma renderSummary_typed:
  "renderSummary (map json_of_detection ds) d
   = (d\<lparr>summary := map pill (Object_entries (foldl count_key [] (map type ds)))\<rparr>, None)"
  by (simp add: renderSummary_eq reduce_typed)

text \<open>The page after a successful load of a body of the data model.\<close>

lemma loadReport_typed:
  \<open>\<exists>cs rs. length cs = length es \<and> list_all is_card cs
      \<and> length rs = sum_list (map (\<lambda>entry. length (detections entry)) es)
      \<and> list_all is_detection_row rs
      \<and> gallery (loadReport d (Response True (Json (json_of_report es))))
          = (if es = [] then [Markup ''<p class="empty">No redacted pages found.</p>''] else cs)
      \<and> detectionsBody (loadReport d (Response True (Json (json_of_report es))))
          = (if rs = [] then [Markup no_detections_row] else rs)
      \<and> summary (loadReport d (Response True (Json (json_of_report es))))
          = map pill (Object_entries
              (foldl count_key [] (map type (concat (map detections es)))))\<close>
proof -
  obtain pgs cs where p: "Array_map to_page (map json_of_entry es) = Inr pgs"
    "collect card pgs = (cs, None)" "length pgs = length es" "length cs = length es"
    "list_all is_card cs"
    using typed_pages by blast
  obtain rs where r: "collect_all entry_rows (map json_of_entry es) = (rs, None)"
    "length rs = sum_list (map (\<lambda>entry. length (detections entry)) es)"
    "list_all is_detection_row rs"
    using collect_all_typed by blast
  from p(3) have e: "pgs = [] \<longleftrightarrow> es = []" by auto
  have \<open>gallery (loadReport d (Response True (Json (json_of_report es))))
          = (if es = [] then [Markup ''<p class="empty">No redacted pages found.</p>''] else cs)
      \<and> detectionsBody (loadReport d (Response True (Json (json_of_report es))))
          = (if rs = [] then [Markup no_detections_row] else rs)
      \<and> summary (loadReport d (Response True (Json (json_of_report es))))
          = map pill (Object_entries
              (foldl count_key [] (map type (concat (map detections es)))))\<close>
    by (simp add: loadReport_def loadReport_try_def json_of_report_def p r e Let_def
        renderGallery_eq renderDetections_eq flatMap_typed renderSummary_typed)
  with p r show ?thesis by blast
qed

text \<open>
  C6. After a successful load of any sequence of entries the gallery holds exactly one
  card per entry, also for an entry without detections, and the detections table holds
  exactly as many detection rows as the entries have detections in total.
\<close>

theorem cards_and_rows_count:
  "length (filter is_card (gallery (loadReport d (Response True (Json (json_of_report es))))))
     = length es
   \<and> length (filter is_detection_row
        (detectionsBody (loadReport d (Response True (Json (json_of_report es))))))
       = sum_list (map (\<lambda>entry. length (detections entry)) es)"
proof -
  obtain cs rs where *: "length cs = length es" "list_all is_card cs"
    "length rs = sum_list (map (\<lambda>entry. length (detections entry)) es)"
    "list_all is_detection_row rs"
    \<open>gallery (loadReport d (Response True (Json (json_of_report es))))
          = (if es = [] then [Markup ''<p class="empty">No redacted pages found.</p>''] else cs)\<close>
    \<open>detectionsBody (loadReport d (Response True (Json (json_of_report es))))
          = (if rs = [] then [Markup no_detections_row] else rs)\<close>
    using loadReport_typed [of es d] by blast
  from *(2) have fc: "filter is_card cs = cs" by (simp add: list_all_iff)
  from *(4) have fr: "filter is_detection_row rs = rs" by (simp add: list_all_iff)
  from * fc fr show ?thesis
    by (auto simp: is_card_def is_detection_row_def)
qed

text \<open>A body of the data model never makes the load fail.\<close>

lemma typed_load_succeeds: "\<not> load_fails (Response True (Json (json_of_report es)))"
proof -
  obtain pgs cs where p: "Array_map to_page (map json_of_entry es) = Inr pgs"
    "collect card pgs = (cs, None)"
    using typed_pages by blast
  obtain rs where r: "collect_all entry_rows (map json_of_entry es) = (rs, None)"
    using collect_all_typed by blast
  have "snd (loadReport_try (Response True (Json (json_of_report es))) blank_page) = None"
    by (simp add: loadReport_try_def json_of_report_def p r Let_def
        renderGallery_eq renderDetections_eq flatMap_typed renderSummary_typed)
  then show ?thesis by simp
qed

text \<open>
  C5, as the code has it. A report load fails when the fetch is rejected, the status is
  non-success, the body does not parse, or the transformation or the rendering of the parsed
  body throws. Every load that fails leaves the gallery with exactly the message "Unable
  to load report. Upload invoices to start.", the detections table with the single
  placeholder "Report not available.", and the summary empty: nothing that the attempt
  rendered before it failed remains.
\<close>

theorem failed_load_shows_error:
  assumes "load_fails resp"
  shows \<open>gallery (loadReport d resp)
           = [Markup ''<p class="empty">Unable to load report. Upload invoices to start.</p>'']
         \<and> detectionsBody (loadReport d resp)
           = [Markup ''<tr><td colspan="6" class="empty">Report not available.</td></tr>'']
         \<and> summary (loadReport d resp) = []\<close>
  using assms by (rule loadReport_failure)

theorem failed_load_shows_error_witness:
  \<open>load_fails
     (Response True (Json (Arr
        [Obj [(''file'', Str ''a.pdf''), (''page'', Num (Integer 1)), (''detections'', Null)]])))
   \<and> filter is_card (gallery (fst (loadReport_try
        (Response True (Json (Arr
          [Obj [(''file'', Str ''a.pdf''), (''page'', Num (Integer 1)), (''detections'', Null)]])))
        (show_loading
          \<lparr>gallery = [Markup ''old''], detectionsBody = [Markup ''old''], summary = [Markup ''old''],
            uploadStatus = [], fileInput = [], requests = []\<rparr>)))) \<noteq> []
   \<and> gallery (loadReport
        \<lparr>gallery = [Markup ''old''], detectionsBody = [Markup ''old''], summary = [Markup ''old''],
          uploadStatus = [], fileInput = [], requests = []\<rparr>
        (Response True (Json (Arr
          [Obj [(''file'', Str ''a.pdf''), (''page'', Num (Integer 1)), (''detections'', Null)]]))))
       = [Markup ''<p class="empty">Unable to load report. Upload invoices to start.</p>'']
   \<and> detectionsBody (loadReport
        \<lparr>gallery = [Markup ''old''], detectionsBody = [Markup ''old''], summary = [Markup ''old''],
          uploadStatus = [], fileInput = [], requests = []\<rparr>
        (Response True (Json (Arr
          [Obj [(''file'', Str ''a.pdf''), (''page'', Num (Integer 1)), (''detections'', Null)]]))))
       = [Markup ''<tr><td colspan="6" class="empty">Report not available.</td></tr>'']
   \<and> summary (loadReport
        \<lparr>gallery = [Markup ''old''], detectionsBody = [Markup ''old''], summary = [Markup ''old''],
          uploadStatus = [], fileInput = [], requests = []\<rparr>
        (Response True (Json (Arr
          [Obj [(''file'', Str ''a.pdf''), (''page'', Num (Integer 1)), (''detections'', Null)]]))))
       = []\<close>
proof -
  let ?d = "\<lparr>gallery = [Markup ''old''], detectionsBody = [Markup ''old''],
      summary = [Markup ''old''], uploadStatus = [], fileInput = [], requests = []\<rparr>"
  let ?entry = "Obj [(''file'', Str ''a.pdf''), (''page'', Num (Integer 1)), (''detections'', Null)]"
  let ?resp = "Response True (Json (Arr [?entry]))"
  obtain path lbl where pg: "to_page ?entry = Inr \<lparr>imagePath = Str path, label = lbl\<rparr>"
    by (simp add: to_page_def Get_def own_property_def truthy_def buildImagePath_eq
        formatPage_Integer call_split_def Array_pop_def String_split_not_Nil)
  obtain c where c: "card \<lparr>imagePath = Str path, label = lbl\<rparr> = Inr c" "is_card c"
    using card_Str by blast
  have rows: "entry_rows ?entry = ([], Some (cannot_read ''null'' ''length''))"
    by (simp add: entry_rows_def Get_def own_property_def)
  have tr: "loadReport_try ?resp (show_loading ?d)
      = ((show_loading ?d)\<lparr>requests := [(''GET'', REPORT_PATH)], gallery := [c],
            detectionsBody := []\<rparr>,
         Some (cannot_read ''null'' ''length''))"
    by (simp add: loadReport_try_def Array_map_def pg c rows renderGallery_eq
        renderDetections_eq show_loading_def)
  from tr have h: "load_fails ?resp"
    using load_fails_iff [of ?resp "show_loading ?d"] by simp
  from c(2) tr have "filter is_card (gallery (fst (loadReport_try ?resp (show_loading ?d)))) \<noteq> []"
    by simp
  with failed_load_shows_error [OF h] h show ?thesis by simp
qed

text \<open>
  C5, as the claim has it, fails for a body that is malformed against the data model but
  on which the code does not throw: an entry without \<open>page\<close> and \<open>language\<close> is rendered
  as a card labelled "Page undefined", and the load does not end in the error state.
\<close>

theorem failed_load_shows_error_counterexample:
  \<open>\<not> valid_report (Arr [Obj [(''file'', Str ''a.pdf''), (''detections'', Arr [])]])
   \<and> gallery (loadReport
        \<lparr>gallery = [], detectionsBody = [], summary = [], uploadStatus = [], fileInput = [],
          requests = []\<rparr>
        (Response True (Json (Arr [Obj [(''file'', Str ''a.pdf''), (''detections'', Arr [])]]))))
       = [Element ''div'' ''card'' (InnerHTML
            (newline @ ''      <img src="/out/redacted_images/a_undefined.png" alt="a.pdf ''
               @ middle_dot @ '' Page undefined" loading="lazy" />'' @ newline
               @ ''      <h3>a.pdf '' @ middle_dot @ '' Page undefined</h3>'' @ newline
               @ ''    ''))]
   \<and> gallery (loadReport
        \<lparr>gallery = [], detectionsBody = [], summary = [], uploadStatus = [], fileInput = [],
          requests = []\<rparr>
        (Response True (Json (Arr [Obj [(''file'', Str ''a.pdf''), (''detections'', Arr [])]]))))
       \<noteq> [Markup ''<p class="empty">Unable to load report. Upload invoices to start.</p>'']\<close>
proof -
  let ?entry = "Obj [(''file'', Str ''a.pdf''), (''detections'', Arr [])]"
  have stem: "text_before_last CHR ''.'' (text_after_last CHR ''/'' ''a.pdf'') = ''a''"
    by (simp add: text_before_last_def text_after_last_def)
  have pg: "to_page ?entry
      = Inr \<lparr>imagePath = Str ''/out/redacted_images/a_undefined.png'',
             label = ''a.pdf '' @ middle_dot @ '' Page undefined''\<rparr>"
    by (simp add: to_page_def Get_def own_property_def truthy_def buildImagePath_eq stem
        formatPage_def String_padStart_def call_split_def Array_pop_def IMAGE_ROOT_def)
  have rows: "entry_rows ?entry = ([], None)"
    by (simp add: entry_rows_def Get_def own_property_def truthy_def number_is_zero_def)
  have flat: "flatMap_detections [?entry] = Inr []"
    by (simp add: flatMap_detections_def Array_map_def Get_def own_property_def)
  have \<open>gallery (loadReport
        \<lparr>gallery = [], detectionsBody = [], summary = [], uploadStatus = [], fileInput = [],
          requests = []\<rparr>
        (Response True (Json (Arr [?entry]))))
       = [Element ''div'' ''card'' (InnerHTML
            (newline @ ''      <img src="/out/redacted_images/a_undefined.png" alt="a.pdf ''
               @ middle_dot @ '' Page undefined" loading="lazy" />'' @ newline
               @ ''      <h3>a.pdf '' @ middle_dot @ '' Page undefined</h3>'' @ newline
               @ ''    ''))]\<close>
    by (simp add: loadReport_def loadReport_try_def Array_map_def pg rows flat renderGallery_eq
        renderDetections_eq renderSummary_eq card_def)
  moreover have "\<not> valid_report (Arr [?entry])"
    by (simp add: valid_report_def valid_entry_def own_property_def)
  ultimately show ?thesis by simp
qed

section \<open>Upload Controller: properties\<close>

lemma submit_no_file:
  assumes "fileInput d = []"
  shows "uploadForm_submit d upload_resp report_resp
         = d\<lparr>uploadStatus := ''Please select a file to upload.''\<rparr>"
  using assms by (simp add: uploadForm_submit_def)

lemma submit_success:
  assumes "fileInput d \<noteq> []" "and_then (Get data ''pages'') ToString = Inr n"
  shows "uploadForm_submit d (Response True (Json data)) report_resp
         = loadReport
             (d\<lparr>requests := requests d @ [(''POST'', UPLOAD_PATH)],
                 uploadStatus := ''Processed '' @ n @ '' page(s).'',
                 fileInput := []\<rparr>)
             report_resp"
  using assms by (simp add: uploadForm_submit_def submit_try_def Let_def)

lemma submit_failure:
  assumes "fileInput d \<noteq> []"
  shows "uploadForm_submit d (Response False b) report_resp
         = d\<lparr>uploadStatus := ''Error: '' @ upload_error_message b,
               requests := requests d @ [(''POST'', UPLOAD_PATH)]\<rparr>"
proof (cases b)
  case (Unparseable m)
  with assms show ?thesis
    by (simp add: uploadForm_submit_def submit_try_def Let_def upload_error_message_def)
next
  case (Json data)
  with assms show ?thesis
    by (cases "and_then (Get data ''error'') (\<lambda>v. if truthy v then ToString v else Inr ''Upload failed'')")
      (simp_all add: uploadForm_submit_def submit_try_def Let_def upload_error_message_def)
qed

text \<open>
  C8. A submit with no file selected sets the status line to exactly "Please select a
  file to upload." and stops: nothing else of the page changes and no request is issued.
\<close>

theorem submit_without_file:
  assumes "fileInput d = []"
  shows "uploadStatus (uploadForm_submit d upload_resp report_resp)
           = ''Please select a file to upload.''
         \<and> requests (uploadForm_submit d upload_resp report_resp) = requests d
         \<and> uploadForm_submit d upload_resp report_resp
           = d\<lparr>uploadStatus := ''Please select a file to upload.''\<rparr>"
  using assms by (simp add: submit_no_file)

theorem submit_without_file_witness:
  "fileInput \<lparr>gallery = [], detectionsBody = [], summary = [], uploadStatus = [],
              fileInput = [], requests = []\<rparr> = []
   \<and> uploadStatus (uploadForm_submit
        \<lparr>gallery = [], detectionsBody = [], summary = [], uploadStatus = [],
          fileInput = [], requests = []\<rparr>
        (Response True (Json (Obj [(''pages'', Num (Integer 3))]))) (Response True (Json (Arr []))))
       = ''Please select a file to upload.''
   \<and> requests (uploadForm_submit
        \<lparr>gallery = [], detectionsBody = [], summary = [], uploadStatus = [],
          fileInput = [], requests = []\<rparr>
        (Response True (Json (Obj [(''pages'', Num (Integer 3))]))) (Response True (Json (Arr []))))
       = []"
proof -
  have h: "fileInput \<lparr>gallery = [], detectionsBody = [], summary = [], uploadStatus = [],
              fileInput = [], requests = []\<rparr> = []" by simp
  from submit_without_file [OF h] show ?thesis by simp
qed

text \<open>
  C4. An upload whose POST succeeds with a page count \<open>n\<close> sets the status line to
  "Processed n page(s).", empties the file selection and then runs the Report Loader
  (one POST, then one GET). The Report Loader does not throw: when the reload fails, the
  status line still reads "Processed n page(s)." and the failure shows only as the Report
  Loader's own error rendering.
\<close>

theorem upload_success:
  assumes "fileInput d \<noteq> []" "Get data ''pages'' = Inr (Num (Integer n))"
  shows "uploadStatus (uploadForm_submit d (Response True (Json data)) report_resp)
           = ''Processed '' @ Number_toString n @ '' page(s).''
         \<and> fileInput (uploadForm_submit d (Response True (Json data)) report_resp) = []
         \<and> requests (uploadForm_submit d (Response True (Json data)) report_resp)
           = requests d @ [(''POST'', UPLOAD_PATH), (''GET'', REPORT_PATH)]
         \<and> uploadForm_submit d (Response True (Json data)) report_resp
           = loadReport
               (d\<lparr>requests := requests d @ [(''POST'', UPLOAD_PATH)],
                   uploadStatus := ''Processed '' @ Number_toString n @ '' page(s).'',
                   fileInput := []\<rparr>)
               report_resp
         \<and> (load_fails report_resp \<longrightarrow>
              gallery (uploadForm_submit d (Response True (Json data)) report_resp)
                = gallery (loadReport d report_resp)
              \<and> detectionsBody (uploadForm_submit d (Response True (Json data)) report_resp)
                = detectionsBody (loadReport d report_resp)
              \<and> summary (uploadForm_submit d (Response True (Json data)) report_resp) = [])"
proof -
  from assms(2) have "and_then (Get data ''pages'') ToString = Inr (Number_toString n)"
    by (simp add: number_print_def)
  from submit_success [OF assms(1) this] show ?thesis
    by (simp add: loadReport_keeps_status loadReport_failure)
qed

theorem upload_success_witness:
  \<open>fileInput \<lparr>gallery = [Markup ''old''], detectionsBody = [], summary = [], uploadStatus = [],
              fileInput = [''invoice.pdf''], requests = []\<rparr> \<noteq> []
   \<and> Get (Obj [(''pages'', Num (Integer 3))]) ''pages'' = Inr (Num (Integer 3))
   \<and> load_fails (Rejected ''Failed to fetch'')
   \<and> uploadStatus (uploadForm_submit
        \<lparr>gallery = [Markup ''old''], detectionsBody = [], summary = [], uploadStatus = [],
          fileInput = [''invoice.pdf''], requests = []\<rparr>
        (Response True (Json (Obj [(''pages'', Num (Integer 3))]))) (Rejected ''Failed to fetch''))
       = ''Processed 3 page(s).''
   \<and> fileInput (uploadForm_submit
        \<lparr>gallery = [Markup ''old''], detectionsBody = [], summary = [], uploadStatus = [],
          fileInput = [''invoice.pdf''], requests = []\<rparr>
        (Response True (Json (Obj [(''pages'', Num (Integer 3))]))) (Rejected ''Failed to fetch''))
       = []
   \<and> requests (uploadForm_submit
        \<lparr>gallery = [Markup ''old''], detectionsBody = [], summary = [], uploadStatus = [],
          fileInput = [''invoice.pdf''], requests = []\<rparr>
        (Response True (Json (Obj [(''pages'', Num (Integer 3))]))) (Rejected ''Failed to fetch''))
       = [(''POST'', ''/api/upload''), (''GET'', ''/api/report'')]
   \<and> gallery (uploadForm_submit
        \<lparr>gallery = [Markup ''old''], detectionsBody = [], summary = [], uploadStatus = [],
          fileInput = [''invoice.pdf''], requests = []\<rparr>
        (Response True (Json (Obj [(''pages'', Num (Integer 3))]))) (Rejected ''Failed to fetch''))
       = [Markup ''<p class="empty">Unable to load report. Upload invoices to start.</p>'']\<close>
proof -
  let ?d = "\<lparr>gallery = [Markup ''old''], detectionsBody = [], summary = [], uploadStatus = [],
              fileInput = [''invoice.pdf''], requests = []\<rparr>"
  let ?data = "Obj [(''pages'', Num (Integer 3))]"
  have h1: "fileInput ?d \<noteq> []" by simp
  have h2: "Get ?data ''pages'' = Inr (Num (Integer 3))"
    by (simp add: Get_def own_property_def)
  have h3: "load_fails (Rejected ''Failed to fetch'')" by simp
  have ts: "Number_toString 3 = ''3''"
    using Number_toString_safe [of 3]
    by (simp add: MAX_SAFE_INTEGER_def decimal.simps digit_char_def)
  from upload_success [OF h1 h2, of "Rejected ''Failed to fetch''"] h2 h3 show ?thesis
    by (simp add: ts UPLOAD_PATH_def REPORT_PATH_def loadReport_failure loadReport_keeps_status)
qed

text \<open>
  C2, as the code has it. An upload whose POST receives a non-success status: when the
  body parses and its \<open>error\<close> member is a non-empty string, the status line becomes
  "Error: <message>" (any truthy member is shown, converted to a string); when the body
  parses to a value other than \<open>null\<close> whose \<open>error\<close> member is absent or falsy, it becomes
  exactly "Error: Upload failed"; when the body does not parse, or parses to \<open>null\<close>, or
  the member cannot be converted to a string, the exception is caught by the same handler
  and the status line becomes "Error: " followed by the message of that exception. In
  each case no reload is issued (the POST is the only request) and the three report
  regions and the file selection are unchanged.
\<close>

theorem upload_failure:
  assumes "fileInput d \<noteq> []"
  shows "(\<forall>data msg. b = Json data \<and> Get data ''error'' = Inr (Str msg) \<and> msg \<noteq> [] \<longrightarrow>
            uploadStatus (uploadForm_submit d (Response False b) report_resp) = ''Error: '' @ msg)
         \<and> (\<forall>data v msg. b = Json data \<and> Get data ''error'' = Inr v \<and> truthy v
               \<and> ToString v = Inr msg \<longrightarrow>
            uploadStatus (uploadForm_submit d (Response False b) report_resp) = ''Error: '' @ msg)
         \<and> (\<forall>data v. b = Json data \<and> Get data ''error'' = Inr v \<and> \<not> truthy v \<longrightarrow>
            uploadStatus (uploadForm_submit d (Response False b) report_resp)
              = ''Error: Upload failed'')
         \<and> (\<forall>m. b = Unparseable m \<longrightarrow>
            uploadStatus (uploadForm_submit d (Response False b) report_resp) = ''Error: '' @ m)
         \<and> (\<forall>data e. b = Json data \<and> Get data ''error'' = Inl e \<longrightarrow>
            uploadStatus (uploadForm_submit d (Response False b) report_resp)
              = ''Error: '' @ message e)
         \<and> (\<forall>data v e. b = Json data \<and> Get data ''error'' = Inr v \<and> truthy v
               \<and> ToString v = Inl e \<longrightarrow>
            uploadStatus (uploadForm_submit d (Response False b) report_resp)
              = ''Error: '' @ message e)
         \<and> requests (uploadForm_submit d (Response False b) report_resp)
             = requests d @ [(''POST'', UPLOAD_PATH)]
         \<and> gallery (uploadForm_submit d (Response False b) report_resp) = gallery d
         \<and> detectionsBody (uploadForm_submit d (Response False b) report_resp) = detectionsBody d
         \<and> summary (uploadForm_submit d (Response False b) report_resp) = summary d
         \<and> fileInput (uploadForm_submit d (Response False b) report_resp) = fileInput d"
  using assms by (auto simp: submit_failure upload_error_message_def truthy_def)

theorem upload_failure_witness:
  "fileInput \<lparr>gallery = [Markup ''old''], detectionsBody = [], summary = [], uploadStatus = [],
              fileInput = [''notes.txt''], requests = []\<rparr> \<noteq> []
   \<and> uploadStatus (uploadForm_submit
        \<lparr>gallery = [Markup ''old''], detectionsBody = [], summary = [], uploadStatus = [],
          fileInput = [''notes.txt''], requests = []\<rparr>
        (Response False (Json (Obj [(''error'', Str ''unsupported file type'')])))
        (Response True (Json (Arr []))))
       = ''Error: unsupported file type''
   \<and> gallery (uploadForm_submit
        \<lparr>gallery = [Markup ''old''], detectionsBody = [], summary = [], uploadStatus = [],
          fileInput = [''notes.txt''], requests = []\<rparr>
        (Response False (Json (Obj [(''error'', Str ''unsupported file type'')])))
        (Response True (Json (Arr []))))
       = [Markup ''old'']
   \<and> requests (uploadForm_submit
        \<lparr>gallery = [Markup ''old''], detectionsBody = [], summary = [], uploadStatus = [],
          fileInput = [''notes.txt''], requests = []\<rparr>
        (Response False (Json (Obj [(''error'', Str ''unsupported file type'')])))
        (Response True (Json (Arr []))))
       = [(''POST'', ''/api/upload'')]"
proof -
  let ?d = "\<lparr>gallery = [Markup ''old''], detectionsBody = [], summary = [], uploadStatus = [],
              fileInput = [''notes.txt''], requests = []\<rparr>"
  have h: "fileInput ?d \<noteq> []" by simp
  have g: "Get (Obj [(''error'', Str ''unsupported file type'')]) ''error''
      = Inr (Str ''unsupported file type'')"
    by (simp add: Get_def own_property_def)
  from upload_failure [OF h, of "Json (Obj [(''error'', Str ''unsupported file type'')])"
      "Response True (Json (Arr []))"] g
  show ?thesis by (simp add: UPLOAD_PATH_def)
qed

text \<open>
  C2, as the claim has it, fails at three inputs. A body that does not parse (here with
  the SyntaxError message of V8 for an empty body) does not give "Error: Upload failed"
  but the parser's message; a body that parses to \<open>null\<close> lacks the field and gives the
  message of the TypeError that reading it throws; a body whose error message is the empty
  string does not give "Error: " followed by that message but the fallback.
\<close>

theorem upload_failure_counterexample:
  "uploadStatus (uploadForm_submit
      \<lparr>gallery = [], detectionsBody = [], summary = [], uploadStatus = [],
        fileInput = [''invoice.pdf''], requests = []\<rparr>
      (Response False (Unparseable ''Unexpected end of JSON input'')) (Response True (Json (Arr []))))
     = ''Error: Unexpected end of JSON input''
   \<and> uploadStatus (uploadForm_submit
      \<lparr>gallery = [], detectionsBody = [], summary = [], uploadStatus = [],
        fileInput = [''invoice.pdf''], requests = []\<rparr>
      (Response False (Unparseable ''Unexpected end of JSON input'')) (Response True (Json (Arr []))))
     \<noteq> ''Error: Upload failed''
   \<and> uploadStatus (uploadForm_submit
      \<lparr>gallery = [], detectionsBody = [], summary = [], uploadStatus = [],
        fileInput = [''invoice.pdf''], requests = []\<rparr>
      (Response False (Json Null)) (Response True (Json (Arr []))))
     = ''Error: Cannot read properties of null (reading '' @ apostrophe @ ''error'' @ apostrophe @ '')''
   \<and> uploadStatus (uploadForm_submit
      \<lparr>gallery = [], detectionsBody = [], summary = [], uploadStatus = [],
        fileInput = [''invoice.pdf''], requests = []\<rparr>
      (Response False (Json Null)) (Response True (Json (Arr []))))
     \<noteq> ''Error: Upload failed''
   \<and> uploadStatus (uploadForm_submit
      \<lparr>gallery = [], detectionsBody = [], summary = [], uploadStatus = [],
        fileInput = [''invoice.pdf''], requests = []\<rparr>
      (Response False (Json (Obj [(''error'', Str [])]))) (Response True (Json (Arr []))))
     = ''Error: Upload failed''
   \<and> uploadStatus (uploadForm_submit
      \<lparr>gallery = [], detectionsBody = [], summary = [], uploadStatus = [],
        fileInput = [''invoice.pdf''], requests = []\<rparr>
      (Response False (Json (Obj [(''error'', Str [])]))) (Response True (Json (Arr []))))
     \<noteq> ''Error: '' @ []"
  by (simp add: submit_failure upload_error_message_def Get_def own_property_def truthy_def
      cannot_read_def apostrophe_def)

section \<open>Summary counts: properties\<close>

lemma set_first_seen: "set (first_seen xs) = set xs"
  by (induction xs) auto

lemma distinct_first_seen: "distinct (first_seen xs)"
  by (induction xs) (auto simp: set_first_seen)

lemma first_seen_filter: "first_seen (filter P xs) = filter P (first_seen xs)"
proof (induction xs)
  case Nil
  show ?case by simp
next
  case (Cons x xs)
  have "filter (\<lambda>y. y \<noteq> x) (filter P (first_seen xs)) = filter P (first_seen xs)" if "\<not> P x"
    using that by (intro filter_True) auto
  with Cons show ?case by (auto simp: conj_commute)
qed

lemma all_numbers_lookup:
  assumes "all_numbers acc"
  shows "(\<exists>n. map_of acc k = Some (Count n)) \<or> map_of acc k = None"
proof (cases "map_of acc k")
  case None
  then show ?thesis by simp
next
  case (Some v)
  then have "(k, v) \<in> set acc" by (rule map_of_SomeD)
  with assms have "case v of Count n \<Rightarrow> True | Text s \<Rightarrow> False"
    by (auto simp: all_numbers_def list_all_iff)
  with Some show ?thesis by (cases v) auto
qed

text \<open>One step of the reduce on a key that is not inherited: a plain increment.\<close>

lemma count_key_plain:
  assumes "all_numbers acc" "key \<notin> set Object_prototype_keys"
  shows "count_key acc key = AList.update key (Count (number_at acc key + 1)) acc"
proof -
  from assms(2) have np: "key \<noteq> ''__proto__''"
    by (auto simp: Object_prototype_keys_def)
  from all_numbers_lookup [OF assms(1), of key] show ?thesis
  proof
    assume "\<exists>n. map_of acc key = Some (Count n)"
    then show ?thesis by (auto simp: count_key_def number_at_def)
  next
    assume "map_of acc key = None"
    with assms(2) np show ?thesis by (simp add: count_key_def number_at_def)
  qed
qed

lemma all_numbers_update: "all_numbers acc \<Longrightarrow> all_numbers (AList.update k (Count n) acc)"
  by (induction acc) (auto simp: all_numbers_def)

lemma number_at_update:
  "number_at (AList.update k (Count n) acc) k' = (if k' = k then n else number_at acc k')"
  by (simp add: number_at_def update_conv')

text \<open>
  The object after the reduce, started from any object that holds counts only, on a
  stream of keys without inherited names.
\<close>

lemma foldl_count_key:
  assumes "all_numbers acc" "\<forall>t \<in> set ts. t \<notin> set Object_prototype_keys"
  shows "all_numbers (foldl count_key acc ts)
         \<and> map fst (foldl count_key acc ts)
           = map fst acc @ first_seen (filter (\<lambda>t. t \<notin> set (map fst acc)) ts)
         \<and> (\<forall>k. number_at (foldl count_key acc ts) k = number_at acc k + count_list ts k)"
  using assms
proof (induction ts arbitrary: acc)
  case Nil
  show ?case using Nil.prems(1) by simp
next
  case (Cons t ts)
  let ?acc = "AList.update t (Count (number_at acc t + 1)) acc"
  from Cons.prems have step: "count_key acc t = ?acc"
    by (simp add: count_key_plain)
  from Cons.prems(1) have num: "all_numbers ?acc" by (rule all_numbers_update)
  from Cons.prems(2) have rest: "\<forall>t \<in> set ts. t \<notin> set Object_prototype_keys"
    by simp
  note IH = Cons.IH [OF num rest]
  have keys: "map fst ?acc @ first_seen (filter (\<lambda>u. u \<notin> set (map fst ?acc)) ts)
        = map fst acc @ first_seen (filter (\<lambda>u. u \<notin> set (map fst acc)) (t # ts))"
  proof (cases "t \<in> set (map fst acc)")
    case True
    then have "set (map fst ?acc) = set (map fst acc)" by (simp add: update_keys)
    with True show ?thesis by (simp add: update_keys)
  next
    case False
    then have "(\<lambda>u. u \<notin> set (map fst ?acc)) = (\<lambda>u. u \<noteq> t \<and> u \<notin> set (map fst acc))"
      by (auto simp: update_keys fun_eq_iff)
    then have "filter (\<lambda>u. u \<notin> set (map fst ?acc)) ts
        = filter (\<lambda>u. u \<noteq> t) (filter (\<lambda>u. u \<notin> set (map fst acc)) ts)"
      by (simp add: conj_commute)
    with False show ?thesis
      by (simp add: update_keys first_seen_filter del: filter_filter)
  qed
  have vals: "number_at ?acc k + count_list ts k = number_at acc k + count_list (t # ts) k" for k
    by (simp add: number_at_update)
  from IH keys vals show ?case by (simp add: step)
qed

lemma alist_by_keys:
  "distinct (map fst xs) \<Longrightarrow> xs = map (\<lambda>k. (k, the (map_of xs k))) (map fst xs)"
proof (induction xs)
  case Nil
  show ?case by simp
next
  case (Cons kv xs)
  obtain k v where kv: "kv = (k, v)" by (cases kv)
  from Cons.prems kv have "map (\<lambda>k'. (k', the (map_of (kv # xs) k'))) (map fst xs)
      = map (\<lambda>k'. (k', the (map_of xs k'))) (map fst xs)"
    by (intro map_cong) auto
  with Cons kv show ?case by simp
qed

text \<open>
  The counts of a stream without inherited names: each type once, in first-seen order,
  with the number of its detections.
\<close>

lemma counts_eq:
  assumes "\<forall>t \<in> set ts. t \<notin> set Object_prototype_keys"
  shows "foldl count_key [] ts = map (\<lambda>t. (t, Count (count_list ts t))) (first_seen ts)"
proof -
  let ?obj = "foldl count_key [] ts"
  have "all_numbers []" by (simp add: all_numbers_def)
  from foldl_count_key [OF this assms]
  have num: "all_numbers ?obj"
    and keys: "map fst ?obj = first_seen ts"
    and vals: "\<And>k. number_at ?obj k = count_list ts k"
    by (simp_all add: number_at_def)
  have "the (map_of ?obj k) = Count (count_list ts k)" if "k \<in> set (map fst ?obj)" for k
  proof -
    from that have "map_of ?obj k \<noteq> None" by (simp add: map_of_eq_None_iff)
    with all_numbers_lookup [OF num, of k] obtain n where n: "map_of ?obj k = Some (Count n)"
      by auto
    with vals [of k] show ?thesis by (simp add: number_at_def)
  qed
  then have e2: "map (\<lambda>k. (k, the (map_of ?obj k))) (map fst ?obj)
      = map (\<lambda>k. (k, Count (count_list ts k))) (map fst ?obj)"
    by (intro map_cong) auto
  have "distinct (map fst ?obj)" by (simp add: keys distinct_first_seen)
  then have e1: "?obj = map (\<lambda>k. (k, the (map_of ?obj k))) (map fst ?obj)"
    by (rule alist_by_keys)
  from e1 e2 have "?obj = map (\<lambda>k. (k, Count (count_list ts k))) (map fst ?obj)"
    by (rule trans)
  then show ?thesis unfolding keys .
qed

text \<open>
  On such a stream the counts add up to the number of detections; array-index types are
  counted like the others (only their place among the pills differs). The reduce reads
  the type of a detection only, so the confidences play no role.
\<close>

lemma counts_sum:
  assumes "\<forall>t \<in> set ts. t \<notin> set Object_prototype_keys"
  shows "sum_of_values (foldl count_key [] ts) = length ts"
proof -
  have "sum_list (map (count_list ts) (first_seen ts)) = sum (count_list ts) (set ts)"
    by (simp add: sum_list_distinct_conv_sum_set distinct_first_seen set_first_seen)
  also have "\<dots> = length ts" by (rule sum_count_set) simp_all
  finally show ?thesis
    by (simp add: counts_eq [OF assms] sum_of_values_def o_def)
qed

lemma counts_of_report:
  assumes "\<forall>t \<in> set (map type ds). t \<notin> set Object_prototype_keys"
  shows "\<exists>counts. Array_reduce count_detection [] (map json_of_detection ds) = Inr counts
           \<and> sum_of_values counts = length ds
           \<and> (\<forall>t. number_at counts t = count_list (map type ds) t)"
proof -
  have "all_numbers []" by (simp add: all_numbers_def)
  from foldl_count_key [OF this assms] counts_sum [OF assms] show ?thesis
    by (simp add: reduce_typed number_at_def)
qed

lemma counts_type_only:
  "map type ds = map type ds'
   \<Longrightarrow> renderSummary (map json_of_detection ds) d = renderSummary (map json_of_detection ds') d"
  by (simp add: renderSummary_typed)

lemma Object_entries_plain:
  assumes "\<forall>k \<in> set (map fst obj). \<not> is_array_index k"
  shows "Object_entries obj = obj"
proof -
  from assms have "filter (\<lambda>kv. is_array_index (fst kv)) obj = []"
    by (auto simp: filter_empty_conv)
  moreover from assms have "filter (\<lambda>kv. \<not> is_array_index (fst kv)) obj = obj"
    by (intro filter_True) auto
  ultimately show ?thesis by (simp add: Object_entries_def)
qed

text \<open>
  C3, as the code has it. For every detection stream whose type strings are plain keys
  (no array index such as \<open>7\<close>, no name of a member of \<open>Object.prototype\<close>), the summary
  shows one pill per type, "<type>: <count>", in the order in which the types first occur
  in the stream.
\<close>

theorem summary_first_seen_order:
  assumes "list_all plain_key (map type ds)"
  shows "summary (fst (renderSummary (map json_of_detection ds) d)) = spec_summary_pills ds
         \<and> snd (renderSummary (map json_of_detection ds) d) = None"
proof -
  from assms have inh: "\<forall>t \<in> set (map type ds). t \<notin> set Object_prototype_keys"
    and idx: "\<forall>t \<in> set (map type ds). \<not> is_array_index t"
    by (auto simp: list_all_iff plain_key_def)
  let ?obj = "map (\<lambda>t. (t, Count (count_list (map type ds) t))) (first_seen (map type ds))"
  have "map fst ?obj = first_seen (map type ds)" by (simp add: o_def)
  with idx have "\<forall>k \<in> set (map fst ?obj). \<not> is_array_index k"
    by (simp only: set_first_seen)
  then have "Object_entries ?obj = ?obj" by (rule Object_entries_plain)
  then show ?thesis
    by (simp add: renderSummary_typed counts_eq [OF inh] spec_summary_pills_def pill_def
        stored_toString_def o_def)
qed

theorem summary_first_seen_order_witness:
  "list_all plain_key (map type
      [\<lparr>type = ''EMAIL'', text_sample = ''a'', confidence = Fraction (9 / 10) ''0.9''\<rparr>,
       \<lparr>type = ''EMAIL'', text_sample = ''b'', confidence = Fraction (1 / 2) ''0.5''\<rparr>,
       \<lparr>type = ''SSN'', text_sample = ''c'', confidence = Integer 1\<rparr>])
   \<and> summary (fst (renderSummary (map json_of_detection
      [\<lparr>type = ''EMAIL'', text_sample = ''a'', confidence = Fraction (9 / 10) ''0.9''\<rparr>,
       \<lparr>type = ''EMAIL'', text_sample = ''b'', confidence = Fraction (1 / 2) ''0.5''\<rparr>,
       \<lparr>type = ''SSN'', text_sample = ''c'', confidence = Integer 1\<rparr>])
      \<lparr>gallery = [], detectionsBody = [], summary = [Markup ''old''], uploadStatus = [],
        fileInput = [], requests = []\<rparr>))
     = [Element ''div'' ''pill'' (TextContent ''EMAIL: 2''),
        Element ''div'' ''pill'' (TextContent ''SSN: 1'')]"
proof -
  let ?ds = "[\<lparr>type = ''EMAIL'', text_sample = ''a'', confidence = Fraction (9 / 10) ''0.9''\<rparr>,
       \<lparr>type = ''EMAIL'', text_sample = ''b'', confidence = Fraction (1 / 2) ''0.5''\<rparr>,
       \<lparr>type = ''SSN'', text_sample = ''c'', confidence = Integer 1\<rparr>]"
  have h: "list_all plain_key (map type ?ds)"
    by (simp add: plain_key_def is_array_index_def Object_prototype_keys_def)
  have "spec_summary_pills ?ds
      = [Element ''div'' ''pill'' (TextContent ''EMAIL: 2''),
         Element ''div'' ''pill'' (TextContent ''SSN: 1'')]"
    by (simp add: spec_summary_pills_def decimal.simps digit_char_def)
  with summary_first_seen_order [OF h] h show ?thesis by simp
qed

text \<open>
  C3, as the claim has it, fails for arbitrary type strings: a type that is an array
  index is listed before the others, whenever it was first seen. The stream of types
  \<open>SSN, 7\<close> yields the pills "7: 1" then "SSN: 1".
\<close>

theorem summary_first_seen_order_counterexample:
  "summary (fst (renderSummary (map json_of_detection
      [\<lparr>type = ''SSN'', text_sample = ''a'', confidence = Fraction (9 / 10) ''0.9''\<rparr>,
       \<lparr>type = ''7'', text_sample = ''b'', confidence = Fraction (1 / 2) ''0.5''\<rparr>])
      \<lparr>gallery = [], detectionsBody = [], summary = [], uploadStatus = [],
        fileInput = [], requests = []\<rparr>))
     = [Element ''div'' ''pill'' (TextContent ''7: 1''),
        Element ''div'' ''pill'' (TextContent ''SSN: 1'')]
   \<and> spec_summary_pills
      [\<lparr>type = ''SSN'', text_sample = ''a'', confidence = Fraction (9 / 10) ''0.9''\<rparr>,
       \<lparr>type = ''7'', text_sample = ''b'', confidence = Fraction (1 / 2) ''0.5''\<rparr>]
     = [Element ''div'' ''pill'' (TextContent ''SSN: 1''),
        Element ''div'' ''pill'' (TextContent ''7: 1'')]"
proof -
  let ?ds = "[\<lparr>type = ''SSN'', text_sample = ''a'', confidence = Fraction (9 / 10) ''0.9''\<rparr>,
       \<lparr>type = ''7'', text_sample = ''b'', confidence = Fraction (1 / 2) ''0.5''\<rparr>]"
  let ?d = "\<lparr>gallery = [], detectionsBody = [], summary = [], uploadStatus = [],
        fileInput = [], requests = []\<rparr>"
  have counts: "foldl count_key [] (map type ?ds) = [(''SSN'', Count 1), (''7'', Count 1)]"
    by (simp add: count_key_def Object_prototype_keys_def)
  have "summary (fst (renderSummary (map json_of_detection ?ds) ?d))
      = [Element ''div'' ''pill'' (TextContent ''7: 1''),
         Element ''div'' ''pill'' (TextContent ''SSN: 1'')]"
    unfolding renderSummary_typed counts
    by (simp add: Object_entries_def is_array_index_def index_value_def pill_def
        stored_toString_def decimal.simps digit_char_def)
  moreover have "spec_summary_pills ?ds
      = [Element ''div'' ''pill'' (TextContent ''SSN: 1''),
         Element ''div'' ''pill'' (TextContent ''7: 1'')]"
    by (simp add: spec_summary_pills_def decimal.simps digit_char_def)
  ultimately show ?thesis by simp
qed

text \<open>
  C7. The claim: the counts add up to the number of detections and each type's count is
  the number of its detections. The reducer reads \<open>acc[type]\<close> through the prototype of
  \<open>{}\<close>: for the type \<open>__proto__\<close> no count is ever stored, and for the type \<open>constructor\<close>
  the stored value is a string. A report with one detection of type \<open>__proto__\<close> has an
  empty object of counts (sum 0, one detection) and an empty summary.
\<close>

theorem counts_inherited_name:
  "Array_reduce count_detection []
     (map json_of_detection (concat (map detections
        [\<lparr>file' = ''a/inv.pdf'', page = 1, language = ''en'', image_path = None,
          detections = [\<lparr>type = ''__proto__'', text_sample = ''x'',
                          confidence = Fraction (9 / 10) ''0.9''\<rparr>]\<rparr>])))
     = Inr []
   \<and> sum_of_values [] = 0
   \<and> length (concat (map detections
        [\<lparr>file' = ''a/inv.pdf'', page = 1, language = ''en'', image_path = None,
          detections = [\<lparr>type = ''__proto__'', text_sample = ''x'',
                          confidence = Fraction (9 / 10) ''0.9''\<rparr>]\<rparr>]))
     = 1
   \<and> summary (loadReport
        \<lparr>gallery = [], detectionsBody = [], summary = [], uploadStatus = [],
          fileInput = [], requests = []\<rparr>
        (Response True (Json (json_of_report
          [\<lparr>file' = ''a/inv.pdf'', page = 1, language = ''en'', image_path = None,
            detections = [\<lparr>type = ''__proto__'', text_sample = ''x'',
                            confidence = Fraction (9 / 10) ''0.9''\<rparr>]\<rparr>]))))
     = []
   \<and> Array_reduce count_detection []
        [json_of_detection \<lparr>type = ''constructor'', text_sample = ''x'',
                             confidence = Fraction (9 / 10) ''0.9''\<rparr>]
     = Inr [(''constructor'', Text ''function Object() { [native code] }1'')]"
proof -
  let ?es = "[\<lparr>file' = ''a/inv.pdf'', page = 1, language = ''en'', image_path = None,
          detections = [\<lparr>type = ''__proto__'', text_sample = ''x'',
                          confidence = Fraction (9 / 10) ''0.9''\<rparr>]\<rparr>]"
  let ?d = "\<lparr>gallery = [], detectionsBody = [], summary = [], uploadStatus = [],
          fileInput = [], requests = []\<rparr>"
  from loadReport_typed [of ?es ?d]
  have "summary (loadReport ?d (Response True (Json (json_of_report ?es))))
      = map pill (Object_entries (foldl count_key [] (map type (concat (map detections ?es)))))"
    by blast
  then have s: "summary (loadReport ?d (Response True (Json (json_of_report ?es)))) = []"
    by (simp add: count_key_def Object_entries_def)
  have c: "Array_reduce count_detection []
        [json_of_detection \<lparr>type = ''constructor'', text_sample = ''x'',
                             confidence = Fraction (9 / 10) ''0.9''\<rparr>]
     = Inr [(''constructor'', Text ''function Object() { [native code] }1'')]"
    using reduce_typed [of "[]" "[\<lparr>type = ''constructor'', text_sample = ''x'',
                             confidence = Fraction (9 / 10) ''0.9''\<rparr>]"]
    by (simp add: count_key_def Object_prototype_keys_def native_function_text_def)
  have p: "Array_reduce count_detection []
     (map json_of_detection (concat (map detections ?es))) = Inr []"
    by (simp add: count_detection_typed count_key_def)
  from s c p show ?thesis by (simp add: sum_of_values_def)
qed

end
